theory Spec2Isabelle
  imports Main
begin

section \<open>Data model\<close>

text \<open>
  The records below carry the fields that the three source files read or write
  (\<^verbatim>\<open>internal/processing/account/delete.go\<close>, \<^verbatim>\<open>internal/db/bundb/media.go\<close>,
  \<^verbatim>\<open>internal/processing/admin/media.go\<close>), plus \<open>Email\<close>, which the doc comment of
  \<^verbatim>\<open>stubbifyUser\<close> names as the field that is kept.  A Go pointer that may be nil is an
  \<open>option\<close>; a nil slice is the empty list; \<^verbatim>\<open>time.Time\<close> is an instant counted from the
  zero value \<^verbatim>\<open>time.Time{}\<close>.
\<close>

type_synonym time = int

definition never :: time where
  "never = 0"

type_synonym ip = "nat list"

text \<open>\<^verbatim>\<open>net.IPv4zero\<close>, the address 0.0.0.0 in Go's 16-byte form.\<close>

definition IPv4zero :: ip where
  "IPv4zero = [0, 0, 0, 0, 0, 0, 0, 0, 0, 0, 255, 255, 0, 0, 0, 0]"

record account =
  ID :: string
  Username :: string
  Domain :: string
  FetchedAt :: time
  AvatarMediaAttachmentID :: string
  AvatarRemoteURL :: string
  HeaderMediaAttachmentID :: string
  HeaderRemoteURL :: string
  DisplayName :: string
  EmojiIDs :: "string list"
  Emojis :: "string list"
  Fields :: "(string \<times> string) list"
  Note :: string
  NoteRaw :: string
  Memorial :: "bool option"
  AlsoKnownAs :: string
  MovedToAccountID :: string
  Reason :: string
  Discoverable :: "bool option"
  StatusContentType :: string
  CustomCSS :: string
  SuspendedAt :: time
  SuspensionOrigin :: string
  HideCollections :: "bool option"
  EnableRSS :: "bool option"

record user =
  ID :: string
  Email :: string
  EncryptedPassword :: string
  SignUpIP :: ip
  CurrentSignInAt :: time
  CurrentSignInIP :: ip
  LastSignInAt :: time
  LastSignInIP :: ip
  SignInCount :: int
  Locale :: string
  CreatedByApplicationID :: string
  LastEmailedAt :: time
  ConfirmationToken :: string
  ConfirmationSentAt :: time
  ResetPasswordToken :: string
  ResetPasswordSentAt :: time

record token =
  ID :: string
  ClientID :: string

record follow =
  ID :: string
  URI :: string
  AccountID :: string
  Account :: "account option"
  TargetAccountID :: string
  TargetAccount :: "account option"

record followRequest =
  ID :: string
  URI :: string
  AccountID :: string
  Account :: "account option"
  TargetAccountID :: string
  TargetAccount :: "account option"

text \<open>A boost is a status of its own, whose \<open>AccountID\<close> is the booster.\<close>

record status =
  ID :: string
  AccountID :: string
  Account :: "account option"

record mediaAttachment =
  ID :: string
  UpdatedAt :: time

subsection \<open>Errors\<close>

text \<open>
  A Go \<^verbatim>\<open>error\<close> is \<open>db.ErrNoEntries\<close>, some other error value, or an error that
  \<^verbatim>\<open>fmt.Errorf("...: %w", err)\<close> wraps.  \<^verbatim>\<open>errors.Is\<close> walks the chain of wrapped
  errors.  A nil error is \<open>None\<close>.
\<close>

datatype error =
    ErrNoEntries
  | ErrOther string
  | Errorf string error

fun errors_Is :: "error \<Rightarrow> error \<Rightarrow> bool" where
  "errors_Is (Errorf m e) target = (Errorf m e = target \<or> errors_Is e target)"
| "errors_Is e target = (e = target)"

text \<open>\<^verbatim>\<open>gtserror.WithCode\<close>, as the two constructors the source calls.\<close>

datatype withCode =
    ErrorInternalError error
  | ErrorBadRequest error string

subsection \<open>Events handed to the workers\<close>

text \<open>The ActivityPub names of package \<^verbatim>\<open>ap\<close> that the source uses.\<close>

datatype ap =
    ActorPerson
  | ActivityDelete
  | ActivityFollow
  | ActivityUndo
  | ObjectNote
  | ActivityAnnounce

datatype gtsModel =
    FollowModel follow
  | StatusModel status

record fromClientAPI =
  APObjectType :: ap
  APActivityType :: ap
  GTSModel :: "gtsModel option"
  OriginAccount :: "account option"
  TargetAccount :: "account option"

subsection \<open>The store, the workers and the log\<close>

datatype level = TRACE | INFO | WARN | ERROR

text \<open>A log line: its level, its format string and the identifiers among its arguments.\<close>

datatype logEntry = Log level string "string list"

datatype table = Clients | Applications | Tokens

text \<open>
  Every call to a collaborator outside the three files (the database, the connection under
  the media cache, the media manager) is written down with its arguments, in the order of
  the calls.
\<close>

datatype call =
    GetUserByAccountIDCall string
  | GetWhereCall "(string \<times> string) list" table
  | DeleteByIDCall string table
  | DeleteWhereCall "(string \<times> string) list" table
  | UpdateUserCall user "string list"
  | GetAccountFollowersCall string
  | DeleteFollowByIDCall string
  | GetAccountFollowRequestsCall string
  | DeleteFollowRequestByIDCall string
  | GetAccountFollowsCall string
  | GetAccountFollowRequestingCall string
  | DeleteAccountBlocksCall string
  | GetAccountStatusesCall string nat bool bool string string bool bool
  | GetStatusReblogsCall status
  | GetAccountByIDCall string
  | DeleteNotificationsCall "string list" string string
  | DeleteStatusBookmarksCall string string
  | DeleteStatusFavesCall string string
  | UpdateAccountCall account "string list"
  | LoadCall string "string list"
  | StoreCall mediaAttachment
  | SelectAttachmentCall string
  | UpdateAttachmentCall mediaAttachment "string list"
  | PruneAllCall int bool

text \<open>
  The state of the process: the state \<open>store\<close> of the collaborators, whose type the
  model leaves open, the media cache, the calls made so far, the batches handed to
  \<^verbatim>\<open>Workers.EnqueueClientAPI\<close> (one list for each call, in order) and the log.
\<close>

record 's world =
  store :: 's
  mediaCache :: "string \<times> string list \<Rightarrow> mediaAttachment option"
  calls :: "call list"
  queue :: "fromClientAPI list list"
  logs :: "logEntry list"

text \<open>
  The database interface \<^verbatim>\<open>p.state.DB\<close>, as far as \<^verbatim>\<open>delete.go\<close> calls it.  Its code is
  not in the three files, so every operation is a parameter: it reads the state of the
  store and returns its result with the next state.  A Go result \<^verbatim>\<open>([]T, error)\<close> is the
  pair of the slice and the error, because the source goes on with the slice when the
  error is \<open>db.ErrNoEntries\<close>; a result \<^verbatim>\<open>(*T, error)\<close> is a sum, the record coming with a
  nil error.
\<close>

record 's DB =
  GetUserByAccountID :: "string \<Rightarrow> 's \<Rightarrow> (error + user) \<times> 's"
  GetWhere :: "(string \<times> string) list \<Rightarrow> 's \<Rightarrow> (token list \<times> error option) \<times> 's"
  DeleteByID :: "string \<Rightarrow> table \<Rightarrow> 's \<Rightarrow> error option \<times> 's"
  DeleteWhere :: "(string \<times> string) list \<Rightarrow> table \<Rightarrow> 's \<Rightarrow> error option \<times> 's"
  UpdateUser :: "user \<Rightarrow> string list \<Rightarrow> 's \<Rightarrow> error option \<times> 's"
  GetAccountFollowers :: "string \<Rightarrow> 's \<Rightarrow> (follow list \<times> error option) \<times> 's"
  DeleteFollowByID :: "string \<Rightarrow> 's \<Rightarrow> error option \<times> 's"
  GetAccountFollowRequests :: "string \<Rightarrow> 's \<Rightarrow> (followRequest list \<times> error option) \<times> 's"
  DeleteFollowRequestByID :: "string \<Rightarrow> 's \<Rightarrow> error option \<times> 's"
  GetAccountFollows :: "string \<Rightarrow> 's \<Rightarrow> (follow list \<times> error option) \<times> 's"
  GetAccountFollowRequesting :: "string \<Rightarrow> 's \<Rightarrow> (followRequest list \<times> error option) \<times> 's"
  DeleteAccountBlocks :: "string \<Rightarrow> 's \<Rightarrow> error option \<times> 's"
  GetAccountStatuses ::
    "string \<Rightarrow> nat \<Rightarrow> bool \<Rightarrow> bool \<Rightarrow> string \<Rightarrow> string \<Rightarrow> bool \<Rightarrow> bool \<Rightarrow> 's
       \<Rightarrow> (status list \<times> error option) \<times> 's"
  GetStatusReblogs :: "status \<Rightarrow> 's \<Rightarrow> (status list \<times> error option) \<times> 's"
  GetAccountByID :: "string \<Rightarrow> 's \<Rightarrow> (error + account) \<times> 's"
  DeleteNotifications :: "string list \<Rightarrow> string \<Rightarrow> string \<Rightarrow> 's \<Rightarrow> error option \<times> 's"
  DeleteStatusBookmarks :: "string \<Rightarrow> string \<Rightarrow> 's \<Rightarrow> error option \<times> 's"
  DeleteStatusFaves :: "string \<Rightarrow> string \<Rightarrow> 's \<Rightarrow> error option \<times> 's"
  UpdateAccount :: "account \<Rightarrow> string list \<Rightarrow> 's \<Rightarrow> error option \<times> 's"

text \<open>
  What the process reads from outside during one call: the clock, the bytes of
  \<^verbatim>\<open>uuid.New().MarshalBinary()\<close> and \<^verbatim>\<open>bcrypt.GenerateFromPassword\<close>.  A byte slice is a
  \<open>string\<close>, so \<^verbatim>\<open>string(dummyPassword)\<close> is the slice itself.
\<close>

record env =
  Now :: time
  NewUUID :: "error + string"
  GenerateFromPassword :: "string \<Rightarrow> int \<Rightarrow> error + string"

definition DefaultCost :: int where
  "DefaultCost = 10"

text \<open>A call to a collaborator: run the operation on the store and write the call down.\<close>

definition invoke :: "call \<Rightarrow> ('s \<Rightarrow> 'r \<times> 's) \<Rightarrow> 's world \<Rightarrow> 'r \<times> 's world" where
  "invoke c f w = (case f (store w) of (r, s') \<Rightarrow> (r, w\<lparr>store := s', calls := calls w @ [c]\<rparr>))"

definition logf :: "level \<Rightarrow> string \<Rightarrow> string list \<Rightarrow> 's world \<Rightarrow> 's world" where
  "logf l msg args w = w\<lparr>logs := logs w @ [Log l msg args]\<rparr>"

text \<open>\<^verbatim>\<open>p.state.Workers.EnqueueClientAPI(ctx, msgs...)\<close>: the batch is accepted.\<close>

definition EnqueueClientAPI :: "fromClientAPI list \<Rightarrow> 's world \<Rightarrow> 's world" where
  "EnqueueClientAPI msgs w = w\<lparr>queue := queue w @ [msgs]\<rparr>"

text \<open>
  Modelled from the spec: \<^verbatim>\<open>Account.IsLocal\<close> of package \<^verbatim>\<open>gtsmodel\<close> is not in the three
  files; the spec says that an empty domain denotes a local account.
\<close>

definition IsLocal :: "account \<Rightarrow> bool" where
  "IsLocal a = (Domain a = [])"

section \<open>Stubbification transforms\<close>

text \<open>
  \<^verbatim>\<open>stubbifyAccount(account, origin)\<close> mutates the account behind the pointer and returns
  the column names.  The model returns the mutated account with the columns; the reading
  of the clock, \<^verbatim>\<open>time.Now()\<close>, is the argument \<open>now\<close>.
\<close>

definition falseBool :: "bool option" where
  "falseBool = Some False"

definition trueBool :: "bool option" where
  "trueBool = Some True"

definition stubbifyAccount :: "time \<Rightarrow> account \<Rightarrow> string \<Rightarrow> account \<times> string list" where
  "stubbifyAccount now account origin =
     (account\<lparr>
        FetchedAt := never,
        AvatarMediaAttachmentID := [],
        AvatarRemoteURL := [],
        HeaderMediaAttachmentID := [],
        HeaderRemoteURL := [],
        DisplayName := [],
        EmojiIDs := [],
        Emojis := [],
        Fields := [],
        Note := [],
        NoteRaw := [],
        Memorial := falseBool,
        AlsoKnownAs := [],
        MovedToAccountID := [],
        Reason := [],
        Discoverable := falseBool,
        StatusContentType := [],
        CustomCSS := [],
        SuspendedAt := now,
        SuspensionOrigin := origin,
        HideCollections := trueBool,
        EnableRSS := falseBool\<rparr>,
      [''fetched_at'',
       ''avatar_media_attachment_id'',
       ''avatar_remote_url'',
       ''header_media_attachment_id'',
       ''header_remote_url'',
       ''display_name'',
       ''emojis'',
       ''fields'',
       ''note'',
       ''note_raw'',
       ''memorial'',
       ''also_known_as'',
       ''moved_to_account_id'',
       ''reason'',
       ''discoverable'',
       ''status_content_type'',
       ''custom_css'',
       ''suspended_at'',
       ''suspension_origin'',
       ''hide_collections'',
       ''enable_rss''])"

text \<open>
  \<^verbatim>\<open>stubbifyUser(user)\<close> returns before it touches the user when the random value or its
  hash cannot be made.  The model returns the user as the call leaves it, with the error or
  the columns.
\<close>

definition stubbifyUser :: "env \<Rightarrow> user \<Rightarrow> user \<times> (error + string list)" where
  "stubbifyUser e user =
     (case NewUUID e of
        Inl err \<Rightarrow> (user, Inl err)
      | Inr uuid \<Rightarrow>
          (case GenerateFromPassword e uuid DefaultCost of
             Inl err \<Rightarrow> (user, Inl err)
           | Inr dummyPassword \<Rightarrow>
               (user\<lparr>
                  EncryptedPassword := dummyPassword,
                  SignUpIP := IPv4zero,
                  CurrentSignInAt := never,
                  CurrentSignInIP := IPv4zero,
                  LastSignInAt := never,
                  LastSignInIP := IPv4zero,
                  SignInCount := 1,
                  Locale := [],
                  CreatedByApplicationID := [],
                  LastEmailedAt := never,
                  ConfirmationToken := [],
                  ConfirmationSentAt := never,
                  ResetPasswordToken := [],
                  ResetPasswordSentAt := never\<rparr>,
                Inr [''encrypted_password'',
                     ''sign_up_ip'',
                     ''current_sign_in_at'',
                     ''current_sign_in_ip'',
                     ''last_sign_in_at'',
                     ''last_sign_in_ip'',
                     ''sign_in_count'',
                     ''locale'',
                     ''created_by_application_id'',
                     ''last_emailed_at'',
                     ''confirmation_token'',
                     ''confirmation_sent_at'',
                     ''reset_password_token'',
                     ''reset_password_sent_at''])))"

section \<open>The account deletion cascade\<close>

definition deleteSelectLimit :: nat where
  "deleteSelectLimit = 50"

text \<open>The test \<^verbatim>\<open>err != nil && !errors.Is(err, db.ErrNoEntries)\<close>, keeping the error.\<close>

definition notNoEntries :: "error option \<Rightarrow> error option" where
  "notNoEntries err =
     (case err of
        None \<Rightarrow> None
      | Some e \<Rightarrow> if errors_Is e ErrNoEntries then None else Some e)"

text \<open>
  A loop \<^verbatim>\<open>for _, x := range xs\<close> whose body returns from the function at the first
  error.
\<close>

fun forEach :: "('a \<Rightarrow> 'w \<Rightarrow> error option \<times> 'w) \<Rightarrow> 'a list \<Rightarrow> 'w \<Rightarrow> error option \<times> 'w" where
  "forEach body [] w = (None, w)"
| "forEach body (x # xs) w =
     (case body x w of
        (Some err, w') \<Rightarrow> (Some err, w')
      | (None, w') \<Rightarrow> forEach body xs w')"

definition wrap :: "string \<Rightarrow> error option \<times> 'w \<Rightarrow> error option \<times> 'w" where
  "wrap msg r = (case r of (err, w) \<Rightarrow> (map_option (Errorf msg) err, w))"

subsection \<open>\<^verbatim>\<open>deleteUserAndTokensForAccount\<close>\<close>

text \<open>The body of the loop over the tokens.\<close>

definition deleteToken :: "'s DB \<Rightarrow> token \<Rightarrow> 's world \<Rightarrow> error option \<times> 's world" where
  "deleteToken db t w =
     (case invoke (DeleteByIDCall (ClientID t) Clients) (DeleteByID db (ClientID t) Clients) w of
        (Some err, w1) \<Rightarrow>
          (Some (Errorf ''deleteUserAndTokensForAccount: db error deleting client: %w'' err), w1)
      | (None, w1) \<Rightarrow>
          (case invoke (DeleteWhereCall [(''client_id'', ClientID t)] Applications)
                  (DeleteWhere db [(''client_id'', ClientID t)] Applications) w1 of
             (Some err, w2) \<Rightarrow>
               (Some (Errorf ''deleteUserAndTokensForAccount: db error deleting application: %w'' err), w2)
           | (None, w2) \<Rightarrow>
               (case invoke (DeleteByIDCall (token.ID t) Tokens) (DeleteByID db (token.ID t) Tokens) w2 of
                  (Some err, w3) \<Rightarrow>
                    (Some (Errorf ''deleteUserAndTokensForAccount: db error deleting token: %w'' err), w3)
                | (None, w3) \<Rightarrow> (None, w3))))"

definition deleteUserAndTokensForAccount ::
  "'s DB \<Rightarrow> env \<Rightarrow> account \<Rightarrow> 's world \<Rightarrow> error option \<times> 's world" where
  "deleteUserAndTokensForAccount db e account w =
     (case invoke (GetUserByAccountIDCall (account.ID account))
             (GetUserByAccountID db (account.ID account)) w of
        (Inl err, w1) \<Rightarrow>
          (Some (Errorf ''deleteUserAndTokensForAccount: db error getting user: %w'' err), w1)
      | (Inr user, w1) \<Rightarrow>
          (case invoke (GetWhereCall [(''user_id'', user.ID user)] Tokens)
                  (GetWhere db [(''user_id'', user.ID user)]) w1 of
             ((tokens, Some err), w2) \<Rightarrow>
               (Some (Errorf ''deleteUserAndTokensForAccount: db error getting tokens: %w'' err), w2)
           | ((tokens, None), w2) \<Rightarrow>
               (case forEach (deleteToken db) tokens w2 of
                  (Some err, w3) \<Rightarrow> (Some err, w3)
                | (None, w3) \<Rightarrow>
                    (case stubbifyUser e user of
                       (user', Inl err) \<Rightarrow>
                         (Some (Errorf ''deleteUserAndTokensForAccount: error stubbifying user: %w'' err), w3)
                     | (user', Inr columns) \<Rightarrow>
                         wrap ''deleteUserAndTokensForAccount: db error updating user: %w''
                           (invoke (UpdateUserCall user' columns) (UpdateUser db user' columns) w3)))))"

subsection \<open>\<^verbatim>\<open>deleteAccountFollows\<close>\<close>

text \<open>
  \<^verbatim>\<open>unfollowSideEffectsFunc\<close> looks at the deleted account once and returns the function
  that the two loops over the outgoing edges apply to each edge.
\<close>

definition unfollowSideEffectsFunc ::
  "account \<Rightarrow> account \<Rightarrow> follow \<Rightarrow> 's world \<Rightarrow> fromClientAPI option \<times> 's world" where
  "unfollowSideEffectsFunc deletedAccount =
     (if \<not> IsLocal deletedAccount
      then (\<lambda>account follow w. (None, w))
      else (\<lambda>account follow w.
        case follow.TargetAccount follow of
          None \<Rightarrow> (None, logf WARN ''follow had no TargetAccount, likely race condition'' [] w)
        | Some targetAccount \<Rightarrow>
            if IsLocal targetAccount then (None, w)
            else (Some \<lparr>APObjectType = ActivityFollow,
                       APActivityType = ActivityUndo,
                       GTSModel = Some (FollowModel follow),
                       OriginAccount = Some account,
                       fromClientAPI.TargetAccount = Some targetAccount\<rparr>, w)))"

text \<open>The loop over the follows that the account owns.\<close>

fun unfollowLoop ::
  "'s DB \<Rightarrow> (account \<Rightarrow> follow \<Rightarrow> 's world \<Rightarrow> fromClientAPI option \<times> 's world) \<Rightarrow> account
     \<Rightarrow> follow list \<Rightarrow> fromClientAPI list \<Rightarrow> 's world
     \<Rightarrow> (error option \<times> fromClientAPI list) \<times> 's world" where
  "unfollowLoop db unfollowSideEffects account [] msgs w = ((None, msgs), w)"
| "unfollowLoop db unfollowSideEffects account (follow # following) msgs w =
     (case invoke (DeleteFollowByIDCall (follow.ID follow)) (DeleteFollowByID db (follow.ID follow)) w of
        (Some err, w1) \<Rightarrow>
          ((Some (Errorf ''deleteAccountFollows: db error unfollowing account: %w'' err), msgs), w1)
      | (None, w1) \<Rightarrow>
          (case unfollowSideEffects account follow w1 of
             (Some msg, w2) \<Rightarrow> unfollowLoop db unfollowSideEffects account following (msgs @ [msg]) w2
           | (None, w2) \<Rightarrow> unfollowLoop db unfollowSideEffects account following msgs w2))"

text \<open>The follow that the source builds from a follow request, for the side effects only.\<close>

definition dummyFollow :: "followRequest \<Rightarrow> follow" where
  "dummyFollow followRequest =
     \<lparr>follow.ID = [],
      follow.URI = followRequest.URI followRequest,
      follow.AccountID = followRequest.AccountID followRequest,
      follow.Account = followRequest.Account followRequest,
      follow.TargetAccountID = followRequest.TargetAccountID followRequest,
      follow.TargetAccount = followRequest.TargetAccount followRequest\<rparr>"

text \<open>The loop over the follow requests that the account owns.\<close>

fun unfollowRequestingLoop ::
  "'s DB \<Rightarrow> (account \<Rightarrow> follow \<Rightarrow> 's world \<Rightarrow> fromClientAPI option \<times> 's world) \<Rightarrow> account
     \<Rightarrow> followRequest list \<Rightarrow> fromClientAPI list \<Rightarrow> 's world
     \<Rightarrow> (error option \<times> fromClientAPI list) \<times> 's world" where
  "unfollowRequestingLoop db unfollowSideEffects account [] msgs w = ((None, msgs), w)"
| "unfollowRequestingLoop db unfollowSideEffects account (followRequest # followRequesting) msgs w =
     (case invoke (DeleteFollowRequestByIDCall (followRequest.ID followRequest))
             (DeleteFollowRequestByID db (followRequest.ID followRequest)) w of
        (Some err, w1) \<Rightarrow>
          ((Some (Errorf ''deleteAccountFollows: db error unfollowingRequesting account: %w'' err), msgs), w1)
      | (None, w1) \<Rightarrow>
          (case unfollowSideEffects account (dummyFollow followRequest) w1 of
             (Some msg, w2) \<Rightarrow>
               unfollowRequestingLoop db unfollowSideEffects account followRequesting (msgs @ [msg]) w2
           | (None, w2) \<Rightarrow>
               unfollowRequestingLoop db unfollowSideEffects account followRequesting msgs w2))"

text \<open>
  The second half of \<^verbatim>\<open>deleteAccountFollows\<close>: the edges that the account owns, and the one
  call that hands the batch to the workers.
\<close>

definition deleteOutgoing :: "'s DB \<Rightarrow> account \<Rightarrow> 's world \<Rightarrow> error option \<times> 's world" where
  "deleteOutgoing db account w =
     (let unfollowSideEffects = unfollowSideEffectsFunc account in
      case invoke (GetAccountFollowsCall (account.ID account))
             (GetAccountFollows db (account.ID account)) w of
        ((following, err), w1) \<Rightarrow>
          (case notNoEntries err of
             Some e \<Rightarrow>
               (Some (Errorf ''deleteAccountFollows: db error getting follows owned by account %s: %w'' e), w1)
           | None \<Rightarrow>
               (case unfollowLoop db unfollowSideEffects account following [] w1 of
                  ((Some e, msgs), w2) \<Rightarrow> (Some e, w2)
                | ((None, msgs), w2) \<Rightarrow>
                    (case invoke (GetAccountFollowRequestingCall (account.ID account))
                            (GetAccountFollowRequesting db (account.ID account)) w2 of
                       ((followRequesting, err), w3) \<Rightarrow>
                         (case notNoEntries err of
                            Some e \<Rightarrow>
                              (Some (Errorf ''deleteAccountFollows: db error getting follow requests owned by account %s: %w'' e), w3)
                          | None \<Rightarrow>
                              (case unfollowRequestingLoop db unfollowSideEffects account
                                      followRequesting msgs w3 of
                                 ((Some e, msgs'), w4) \<Rightarrow> (Some e, w4)
                               | ((None, msgs'), w4) \<Rightarrow> (None, EnqueueClientAPI msgs' w4)))))))"

definition deleteAccountFollows :: "'s DB \<Rightarrow> account \<Rightarrow> 's world \<Rightarrow> error option \<times> 's world" where
  "deleteAccountFollows db account w =
     (case invoke (GetAccountFollowersCall (account.ID account))
             (GetAccountFollowers db (account.ID account)) w of
        ((followedBy, err), w1) \<Rightarrow>
          (case notNoEntries err of
             Some e \<Rightarrow>
               (Some (Errorf ''deleteAccountFollows: db error getting follows targeting account %s: %w'' e), w1)
           | None \<Rightarrow>
               (case forEach
                       (\<lambda>follow w.
                          wrap ''deleteAccountFollows: db error unfollowing account followedBy: %w''
                            (invoke (DeleteFollowByIDCall (follow.ID follow))
                               (DeleteFollowByID db (follow.ID follow)) w))
                       followedBy w1 of
                  (Some e, w2) \<Rightarrow> (Some e, w2)
                | (None, w2) \<Rightarrow>
                    (case invoke (GetAccountFollowRequestsCall (account.ID account))
                            (GetAccountFollowRequests db (account.ID account)) w2 of
                       ((followRequestedBy, err), w3) \<Rightarrow>
                         (case notNoEntries err of
                            Some e \<Rightarrow>
                              (Some (Errorf ''deleteAccountFollows: db error getting follow requests targeting account %s: %w'' e), w3)
                          | None \<Rightarrow>
                              (case forEach
                                      (\<lambda>followRequest w.
                                         wrap ''deleteAccountFollows: db error unfollowing account followRequestedBy: %w''
                                           (invoke (DeleteFollowRequestByIDCall (followRequest.ID followRequest))
                                              (DeleteFollowRequestByID db (followRequest.ID followRequest)) w))
                                      followRequestedBy w3 of
                                 (Some e, w4) \<Rightarrow> (Some e, w4)
                               | (None, w4) \<Rightarrow> deleteOutgoing db account w4))))))"

subsection \<open>\<^verbatim>\<open>deleteAccountBlocks\<close>\<close>

definition deleteAccountBlocks :: "'s DB \<Rightarrow> account \<Rightarrow> 's world \<Rightarrow> error option \<times> 's world" where
  "deleteAccountBlocks db account w =
     wrap ''deleteAccountBlocks: db error deleting account blocks for %s: %w''
       (invoke (DeleteAccountBlocksCall (account.ID account))
          (DeleteAccountBlocks db (account.ID account)) w)"

subsection \<open>\<^verbatim>\<open>deleteAccountStatuses\<close>\<close>

text \<open>The loop over the boosts of one status.\<close>

fun boostsLoop ::
  "'s DB \<Rightarrow> account \<Rightarrow> status \<Rightarrow> status list \<Rightarrow> fromClientAPI list \<Rightarrow> 's world
     \<Rightarrow> (error option \<times> fromClientAPI list) \<times> 's world" where
  "boostsLoop db account status [] msgs w = ((None, msgs), w)"
| "boostsLoop db account status (boost # boosts) msgs w =
     (case status.Account boost of
        None \<Rightarrow>
          (case invoke (GetAccountByIDCall (status.AccountID boost))
                  (GetAccountByID db (status.AccountID boost)) w of
             (Inl err, w1) \<Rightarrow>
               if errors_Is err ErrNoEntries
               then boostsLoop db account status boosts msgs
                      (logf WARN ''no account found with id %s for boost %s''
                         [status.AccountID boost, status.ID boost] w1)
               else ((Some (Errorf ''deleteAccountStatuses: error fetching boosted status account for %s: %w'' err),
                      msgs), w1)
           | (Inr boostAcc, w1) \<Rightarrow>
               boostsLoop db account status boosts
                 (msgs @ [\<lparr>APObjectType = ActivityAnnounce,
                           APActivityType = ActivityUndo,
                           GTSModel = Some (StatusModel status),
                           OriginAccount = Some boostAcc,
                           fromClientAPI.TargetAccount = Some account\<rparr>]) w1)
      | Some boostAcc \<Rightarrow>
          boostsLoop db account status boosts
            (msgs @ [\<lparr>APObjectType = ActivityAnnounce,
                      APActivityType = ActivityUndo,
                      GTSModel = Some (StatusModel status),
                      OriginAccount = Some boostAcc,
                      fromClientAPI.TargetAccount = Some account\<rparr>]) w)"

text \<open>The loop over the statuses of one page.\<close>

fun statusesLoop ::
  "'s DB \<Rightarrow> account \<Rightarrow> status list \<Rightarrow> fromClientAPI list \<Rightarrow> 's world
     \<Rightarrow> (error option \<times> fromClientAPI list) \<times> 's world" where
  "statusesLoop db account [] msgs w = ((None, msgs), w)"
| "statusesLoop db account (status0 # statuses) msgs w =
     (let status = status0\<lparr>status.Account := Some account\<rparr>;
          msgs1 = msgs @ [\<lparr>APObjectType = ObjectNote,
                           APActivityType = ActivityDelete,
                           GTSModel = Some (StatusModel status),
                           OriginAccount = Some account,
                           fromClientAPI.TargetAccount = Some account\<rparr>]
      in case invoke (GetStatusReblogsCall status) (GetStatusReblogs db status) w of
           ((boosts, err), w1) \<Rightarrow>
             (case notNoEntries err of
                Some e \<Rightarrow>
                  ((Some (Errorf ''deleteAccountStatuses: error fetching status reblogs for %s: %w'' e),
                    msgs1), w1)
              | None \<Rightarrow>
                  (case boostsLoop db account status boosts msgs1 w1 of
                     ((Some e, msgs2), w2) \<Rightarrow> ((Some e, msgs2), w2)
                   | ((None, msgs2), w2) \<Rightarrow> statusesLoop db account statuses msgs2 w2)))"

text \<open>
  The loop \<^verbatim>\<open>statusLoop\<close> has no bound of its own: it ends when the store returns an error
  or an empty page.  The first argument counts the pages that the model may still read;
  \<open>None\<close> says that the loop has not ended within them.
\<close>

fun statusLoop ::
  "nat \<Rightarrow> 's DB \<Rightarrow> account \<Rightarrow> string \<Rightarrow> fromClientAPI list \<Rightarrow> 's world
     \<Rightarrow> ((error option \<times> fromClientAPI list) \<times> 's world) option" where
  "statusLoop 0 db account maxID msgs w = None"
| "statusLoop (Suc fuel) db account maxID msgs w =
     (case invoke (GetAccountStatusesCall (account.ID account) deleteSelectLimit False False maxID [] False False)
             (GetAccountStatuses db (account.ID account) deleteSelectLimit False False maxID [] False False) w of
        ((statuses, err), w1) \<Rightarrow>
          (case notNoEntries err of
             Some e \<Rightarrow> Some ((Some e, msgs), w1)
           | None \<Rightarrow>
               if length statuses = 0 then Some ((None, msgs), w1)
               else
                 (case statusesLoop db account statuses msgs w1 of
                    ((Some e, msgs1), w2) \<Rightarrow> Some ((Some e, msgs1), w2)
                  | ((None, msgs1), w2) \<Rightarrow>
                      statusLoop fuel db account (status.ID (last statuses)) msgs1 w2)))"

definition deleteAccountStatuses ::
  "nat \<Rightarrow> 's DB \<Rightarrow> account \<Rightarrow> 's world \<Rightarrow> (error option \<times> 's world) option" where
  "deleteAccountStatuses fuel db account w =
     (case statusLoop fuel db account [] [] w of
        None \<Rightarrow> None
      | Some ((Some e, msgs), w1) \<Rightarrow> Some (Some e, w1)
      | Some ((None, msgs), w1) \<Rightarrow> Some (None, EnqueueClientAPI msgs w1))"

subsection \<open>\<^verbatim>\<open>deleteAccountNotifications\<close> and \<^verbatim>\<open>deleteAccountPeripheral\<close>\<close>

definition deleteAccountNotifications ::
  "'s DB \<Rightarrow> account \<Rightarrow> 's world \<Rightarrow> error option \<times> 's world" where
  "deleteAccountNotifications db account w =
     (case invoke (DeleteNotificationsCall [] (account.ID account) [])
             (DeleteNotifications db [] (account.ID account) []) w of
        (err, w1) \<Rightarrow>
          (case notNoEntries err of
             Some e \<Rightarrow> (Some e, w1)
           | None \<Rightarrow>
               (case invoke (DeleteNotificationsCall [] [] (account.ID account))
                       (DeleteNotifications db [] [] (account.ID account)) w1 of
                  (err, w2) \<Rightarrow>
                    (case notNoEntries err of
                       Some e \<Rightarrow> (Some e, w2)
                     | None \<Rightarrow> (None, w2)))))"

definition deleteAccountPeripheral ::
  "'s DB \<Rightarrow> account \<Rightarrow> 's world \<Rightarrow> error option \<times> 's world" where
  "deleteAccountPeripheral db account w =
     (case invoke (DeleteStatusBookmarksCall (account.ID account) [])
             (DeleteStatusBookmarks db (account.ID account) []) w of
        (err, w1) \<Rightarrow>
          (case notNoEntries err of
             Some e \<Rightarrow> (Some e, w1)
           | None \<Rightarrow>
               (case invoke (DeleteStatusBookmarksCall [] (account.ID account))
                       (DeleteStatusBookmarks db [] (account.ID account)) w1 of
                  (err, w2) \<Rightarrow>
                    (case notNoEntries err of
                       Some e \<Rightarrow> (Some e, w2)
                     | None \<Rightarrow>
                         (case invoke (DeleteStatusFavesCall (account.ID account) [])
                                 (DeleteStatusFaves db (account.ID account) []) w2 of
                            (err, w3) \<Rightarrow>
                              (case notNoEntries err of
                                 Some e \<Rightarrow> (Some e, w3)
                               | None \<Rightarrow>
                                   (case invoke (DeleteStatusFavesCall [] (account.ID account))
                                           (DeleteStatusFaves db [] (account.ID account)) w3 of
                                      (err, w4) \<Rightarrow>
                                        (case notNoEntries err of
                                           Some e \<Rightarrow> (Some e, w4)
                                         | None \<Rightarrow> (None, w4)))))))))"

subsection \<open>\<^verbatim>\<open>Delete\<close> and \<^verbatim>\<open>DeleteSelf\<close>\<close>

text \<open>
  \<^verbatim>\<open>Delete\<close> runs the steps in order and returns at the first error.  The account that
  \<^verbatim>\<open>stubbifyAccount\<close> has redacted is the one that \<^verbatim>\<open>UpdateAccount\<close> receives.  The first
  argument is the bound on the pages of the status step.
\<close>

definition Delete ::
  "nat \<Rightarrow> 's DB \<Rightarrow> env \<Rightarrow> account \<Rightarrow> string \<Rightarrow> 's world \<Rightarrow> (withCode option \<times> 's world) option" where
  "Delete fuel db e account origin w0 =
     (let w = logf TRACE ''beginning account delete process'' [] w0 in
      case (if IsLocal account then deleteUserAndTokensForAccount db e account w else (None, w)) of
        (Some err, w1) \<Rightarrow> Some (Some (ErrorInternalError err), w1)
      | (None, w1) \<Rightarrow>
          (case deleteAccountFollows db account w1 of
             (Some err, w2) \<Rightarrow> Some (Some (ErrorInternalError err), w2)
           | (None, w2) \<Rightarrow>
               (case deleteAccountBlocks db account w2 of
                  (Some err, w3) \<Rightarrow> Some (Some (ErrorInternalError err), w3)
                | (None, w3) \<Rightarrow>
                    (case deleteAccountStatuses fuel db account w3 of
                       None \<Rightarrow> None
                     | Some (Some err, w4) \<Rightarrow> Some (Some (ErrorInternalError err), w4)
                     | Some (None, w4) \<Rightarrow>
                         (case deleteAccountNotifications db account w4 of
                            (Some err, w5) \<Rightarrow> Some (Some (ErrorInternalError err), w5)
                          | (None, w5) \<Rightarrow>
                              (case deleteAccountPeripheral db account w5 of
                                 (Some err, w6) \<Rightarrow> Some (Some (ErrorInternalError err), w6)
                               | (None, w6) \<Rightarrow>
                                   (case stubbifyAccount (Now e) account origin of
                                      (account', columns) \<Rightarrow>
                                        (case invoke (UpdateAccountCall account' columns)
                                                (UpdateAccount db account' columns) w6 of
                                           (Some err, w7) \<Rightarrow> Some (Some (ErrorInternalError err), w7)
                                         | (None, w7) \<Rightarrow>
                                             Some (None, logf INFO ''account deleted'' [] w7)))))))))"

definition DeleteSelf :: "account \<Rightarrow> 's world \<Rightarrow> withCode option \<times> 's world" where
  "DeleteSelf account w =
     (let fromClientAPIMessage =
            \<lparr>APObjectType = ActorPerson,
             APActivityType = ActivityDelete,
             GTSModel = None,
             OriginAccount = Some account,
             fromClientAPI.TargetAccount = Some account\<rparr>
      in (None, EnqueueClientAPI [fromClientAPIMessage] w))"

section \<open>The media repository\<close>

text \<open>
  The connection \<^verbatim>\<open>m.conn\<close> under the repository: the select of one attachment by id,
  which fills the attachment and returns the error of \<^verbatim>\<open>Scan\<close>; the update of one
  attachment with the given columns, which returns the error of \<^verbatim>\<open>Exec\<close>; and
  \<^verbatim>\<open>ProcessError\<close>, which turns an error of the driver into an error of package \<^verbatim>\<open>db\<close>
  and keeps nil as nil.  Their code is not in the three files, so they are parameters.
\<close>

record 's conn =
  SelectAttachment :: "string \<Rightarrow> 's \<Rightarrow> (mediaAttachment \<times> error option) \<times> 's"
  UpdateAttachmentExec :: "mediaAttachment \<Rightarrow> string list \<Rightarrow> 's \<Rightarrow> error option \<times> 's"
  ProcessError :: "error \<Rightarrow> error"

text \<open>
  Modelled from the spec: the cache \<^verbatim>\<open>m.state.Caches.GTS.Media()\<close> is not in the three
  files.  The spec says of \<^verbatim>\<open>Load\<close>: it looks up the entry keyed by the lookup name and
  the key parts; on a hit it returns the cached value; on a miss it invokes the loader, and
  on success the result is cached and returned, on failure nothing is cached and the error
  propagates.
\<close>

definition Load ::
  "string \<Rightarrow> ('s world \<Rightarrow> (error + mediaAttachment) \<times> 's world) \<Rightarrow> string list \<Rightarrow> 's world
     \<Rightarrow> (error + mediaAttachment) \<times> 's world" where
  "Load lookup loaderFn keyParts w0 =
     (let w = w0\<lparr>calls := calls w0 @ [LoadCall lookup keyParts]\<rparr> in
      case mediaCache w (lookup, keyParts) of
        Some v \<Rightarrow> (Inr v, w)
      | None \<Rightarrow>
          (case loaderFn w of
             (Inl err, w1) \<Rightarrow> (Inl err, w1)
           | (Inr v, w1) \<Rightarrow> (Inr v, w1\<lparr>mediaCache := (mediaCache w1)((lookup, keyParts) \<mapsto> v)\<rparr>)))"

text \<open>
  Modelled from the spec: \<^verbatim>\<open>Store\<close> of the same cache.  The spec says: it executes the
  persist function against the store first; only on success does it write the value into
  the cache, keyed by primary id.
\<close>

definition Store ::
  "mediaAttachment \<Rightarrow> ('s world \<Rightarrow> error option \<times> 's world) \<Rightarrow> 's world \<Rightarrow> error option \<times> 's world" where
  "Store entity persistFn w0 =
     (let w = w0\<lparr>calls := calls w0 @ [StoreCall entity]\<rparr> in
      case persistFn w of
        (Some err, w1) \<Rightarrow> (Some err, w1)
      | (None, w1) \<Rightarrow>
          (None, w1\<lparr>mediaCache := (mediaCache w1)((''ID'', [mediaAttachment.ID entity]) \<mapsto> entity)\<rparr>))"

definition getAttachment ::
  "'s conn \<Rightarrow> string \<Rightarrow> ('s world \<Rightarrow> (mediaAttachment \<times> error option) \<times> 's world) \<Rightarrow> string list
     \<Rightarrow> 's world \<Rightarrow> (error + mediaAttachment) \<times> 's world" where
  "getAttachment c lookup dbQuery keyParts =
     Load lookup
       (\<lambda>w. case dbQuery w of
               ((attachment, Some err), w1) \<Rightarrow> (Inl (ProcessError c err), w1)
             | ((attachment, None), w1) \<Rightarrow> (Inr attachment, w1))
       keyParts"

definition GetAttachmentByID ::
  "'s conn \<Rightarrow> string \<Rightarrow> 's world \<Rightarrow> (error + mediaAttachment) \<times> 's world" where
  "GetAttachmentByID c id' =
     getAttachment c ''ID'' (invoke (SelectAttachmentCall id') (SelectAttachment c id')) [id']"

text \<open>The loop of \<^verbatim>\<open>GetAttachmentsByIDs\<close>, with the slice that it appends to.\<close>

fun attachmentsLoop ::
  "'s conn \<Rightarrow> string list \<Rightarrow> mediaAttachment list \<Rightarrow> 's world \<Rightarrow> mediaAttachment list \<times> 's world" where
  "attachmentsLoop c [] attachments w = (attachments, w)"
| "attachmentsLoop c (id' # ids) attachments w =
     (case GetAttachmentByID c id' w of
        (Inl err, w1) \<Rightarrow>
          attachmentsLoop c ids attachments (logf ERROR ''error getting attachment %q: %v'' [id'] w1)
      | (Inr attachment, w1) \<Rightarrow> attachmentsLoop c ids (attachments @ [attachment]) w1)"

definition GetAttachmentsByIDs ::
  "'s conn \<Rightarrow> string list \<Rightarrow> 's world \<Rightarrow> (mediaAttachment list \<times> error option) \<times> 's world" where
  "GetAttachmentsByIDs c ids w =
     (case attachmentsLoop c ids [] w of
        (attachments, w1) \<Rightarrow> ((attachments, None), w1))"

text \<open>
  \<^verbatim>\<open>UpdateAttachment\<close> writes the time into the attachment behind the pointer before it
  stores it; the model returns that attachment with the error.
\<close>

definition UpdateAttachment ::
  "'s conn \<Rightarrow> time \<Rightarrow> mediaAttachment \<Rightarrow> string list \<Rightarrow> 's world
     \<Rightarrow> (mediaAttachment \<times> error option) \<times> 's world" where
  "UpdateAttachment c now media0 columns0 w =
     (let media = media0\<lparr>UpdatedAt := now\<rparr>;
          columns = (if length columns0 > 0 then columns0 @ [''updated_at''] else columns0)
      in case Store media
                (\<lambda>w. case invoke (UpdateAttachmentCall media columns)
                               (UpdateAttachmentExec c media columns) w of
                        (err, w1) \<Rightarrow> (map_option (ProcessError c) err, w1))
                w of
           (err, w1) \<Rightarrow> ((media, err), w1))"

section \<open>The administrative entry point\<close>

text \<open>
  \<^verbatim>\<open>p.mediaManager.PruneAll\<close> is a parameter.  A Go \<^verbatim>\<open>int\<close> is an \<open>int\<close> here: the source
  compares it with 0 and passes it on, and computes nothing with it.
\<close>

definition MediaPrune ::
  "(int \<Rightarrow> bool \<Rightarrow> 's \<Rightarrow> error option \<times> 's) \<Rightarrow> int \<Rightarrow> 's world \<Rightarrow> withCode option \<times> 's world" where
  "MediaPrune PruneAll mediaRemoteCacheDays w =
     (if mediaRemoteCacheDays < 0
      then
        (let err = ErrOther ''MediaPrune: invalid value for mediaRemoteCacheDays prune: value was %d, cannot be less than 0''
         in (Some (ErrorBadRequest err
                     ''MediaPrune: invalid value for mediaRemoteCacheDays prune: value was %d, cannot be less than 0''),
             w))
      else
        (case invoke (PruneAllCall mediaRemoteCacheDays False)
                (PruneAll mediaRemoteCacheDays False) w of
           (Some err, w1) \<Rightarrow> (Some (ErrorInternalError (Errorf ''MediaPrune: %w'' err)), w1)
         | (None, w1) \<Rightarrow> (None, w1)))"

section \<open>Concrete inputs and the vocabulary of the properties\<close>

text \<open>A process that has called nothing yet, over a store in state \<open>s\<close>.\<close>

definition emptyWorld :: "'s \<Rightarrow> 's world" where
  "emptyWorld s = \<lparr>store = s, mediaCache = Map.empty, calls = [], queue = [], logs = []\<rparr>"

text \<open>An account with every profile field filled in; the domain \<open>[]\<close> makes it local.\<close>

definition exampleAccount :: "string \<Rightarrow> string \<Rightarrow> account" where
  "exampleAccount i d =
     \<lparr>account.ID = i, Username = ''user'' @ i, Domain = d, FetchedAt = 7,
      AvatarMediaAttachmentID = ''av'', AvatarRemoteURL = ''https://example.org/av'',
      HeaderMediaAttachmentID = ''hd'', HeaderRemoteURL = ''https://example.org/hd'',
      DisplayName = ''Name'', EmojiIDs = [''e1''], Emojis = [''e1''],
      Fields = [(''pronouns'', ''they'')], Note = ''<p>hi</p>'', NoteRaw = ''hi'',
      Memorial = Some True, AlsoKnownAs = ''aka'', MovedToAccountID = ''moved'',
      Reason = ''because'', Discoverable = Some True, StatusContentType = ''text/plain'',
      CustomCSS = ''css'', SuspendedAt = 0, SuspensionOrigin = [],
      HideCollections = Some False, EnableRSS = Some True\<rparr>"

definition exampleUser :: user where
  "exampleUser =
     \<lparr>user.ID = ''u1'', Email = ''a@example.org'', EncryptedPassword = ''oldhash'',
      SignUpIP = [1, 2, 3, 4], CurrentSignInAt = 5, CurrentSignInIP = [1, 2, 3, 4],
      LastSignInAt = 4, LastSignInIP = [1, 2, 3, 4], SignInCount = 9, Locale = ''en'',
      CreatedByApplicationID = ''app'', LastEmailedAt = 3, ConfirmationToken = ''tok'',
      ConfirmationSentAt = 2, ResetPasswordToken = ''rtok'', ResetPasswordSentAt = 1\<rparr>"

text \<open>An environment in which the random value and its hash can be made.\<close>

definition exampleEnv :: env where
  "exampleEnv = \<lparr>Now = 1000, NewUUID = Inr ''0123456789abcdef'',
                  GenerateFromPassword = (\<lambda>password cost. Inr (''$2a$'' @ password))\<rparr>"

text \<open>
  A connection that finds every attachment but \<open>''b''\<close>, for which the driver reports that
  there is no row.
\<close>

definition exampleConn :: "unit conn" where
  "exampleConn =
     \<lparr>SelectAttachment = (\<lambda>id' s.
        if id' = ''b''
        then ((\<lparr>mediaAttachment.ID = [], UpdatedAt = 0\<rparr>, Some (ErrOther ''sql: no rows'')), s)
        else ((\<lparr>mediaAttachment.ID = id', UpdatedAt = 1\<rparr>, None), s)),
      UpdateAttachmentExec = (\<lambda>media columns s. (None, s)),
      ProcessError = (\<lambda>err. ErrNoEntries)\<rparr>"

definition isLoadCall :: "call \<Rightarrow> bool" where
  "isLoadCall c = (case c of LoadCall lookup keyParts \<Rightarrow> True | _ \<Rightarrow> False)"

text \<open>
  The outcome of the cached load of each requested id, in the order of the ids and in the
  state in which the loop of \<^verbatim>\<open>GetAttachmentsByIDs\<close> reaches it.
\<close>

fun loadOutcomes :: "'s conn \<Rightarrow> string list \<Rightarrow> 's world \<Rightarrow> (error + mediaAttachment) list" where
  "loadOutcomes c [] w = []"
| "loadOutcomes c (id' # ids) w =
     (case GetAttachmentByID c id' w of
        (Inl err, w1) \<Rightarrow>
          Inl err # loadOutcomes c ids (logf ERROR ''error getting attachment %q: %v'' [id'] w1)
      | (Inr attachment, w1) \<Rightarrow> Inr attachment # loadOutcomes c ids w1)"

text \<open>
  The event that the policy of the follow step gives for one outgoing edge of the deleted
  account, in the words of the claim: none when the deleted account is not local, none
  when the target account of the edge is missing, none when the target is local, and
  otherwise the undo of the follow, from the deleted account to the target.
\<close>

definition undoFollowEvent :: "account \<Rightarrow> follow \<Rightarrow> fromClientAPI option" where
  "undoFollowEvent deleted follow =
     (if \<not> IsLocal deleted then None
      else
        (case follow.TargetAccount follow of
           None \<Rightarrow> None
         | Some targetAccount \<Rightarrow>
             if IsLocal targetAccount then None
             else Some \<lparr>APObjectType = ActivityFollow,
                        APActivityType = ActivityUndo,
                        GTSModel = Some (FollowModel follow),
                        OriginAccount = Some deleted,
                        fromClientAPI.TargetAccount = Some targetAccount\<rparr>))"

text \<open>
  A store in which the account has a user and nothing else: every listing is empty and
  every deletion and update succeeds.
\<close>

definition quietDB :: "'s DB" where
  "quietDB =
     \<lparr>GetUserByAccountID = (\<lambda>accountID s. (Inr exampleUser, s)),
      GetWhere = (\<lambda>where' s. (([], None), s)),
      DeleteByID = (\<lambda>id' t s. (None, s)),
      DeleteWhere = (\<lambda>where' t s. (None, s)),
      UpdateUser = (\<lambda>user columns s. (None, s)),
      GetAccountFollowers = (\<lambda>accountID s. (([], None), s)),
      DeleteFollowByID = (\<lambda>id' s. (None, s)),
      GetAccountFollowRequests = (\<lambda>accountID s. (([], None), s)),
      DeleteFollowRequestByID = (\<lambda>id' s. (None, s)),
      GetAccountFollows = (\<lambda>accountID s. (([], None), s)),
      GetAccountFollowRequesting = (\<lambda>accountID s. (([], None), s)),
      DeleteAccountBlocks = (\<lambda>accountID s. (None, s)),
      GetAccountStatuses =
        (\<lambda>accountID limit excludeReplies excludeReblogs maxID minID mediaOnly publicOnly s.
           (([], None), s)),
      GetStatusReblogs = (\<lambda>status s. (([], None), s)),
      GetAccountByID = (\<lambda>id' s. (Inl ErrNoEntries, s)),
      DeleteNotifications = (\<lambda>types targetAccountID originAccountID s. (None, s)),
      DeleteStatusBookmarks = (\<lambda>targetAccountID originAccountID s. (None, s)),
      DeleteStatusFaves = (\<lambda>targetAccountID originAccountID s. (None, s)),
      UpdateAccount = (\<lambda>account columns s. (None, s))\<rparr>"

text \<open>Outgoing edges of the account \<open>01\<close>.\<close>

definition exampleFollow :: "string \<Rightarrow> account option \<Rightarrow> follow" where
  "exampleFollow i target =
     \<lparr>follow.ID = i, follow.URI = ''https://example.org/follow/'' @ i, follow.AccountID = ''01'',
      follow.Account = None,
      follow.TargetAccountID = (case target of None \<Rightarrow> ''gone'' | Some a \<Rightarrow> account.ID a),
      follow.TargetAccount = target\<rparr>"

definition exampleFollowRequest :: "string \<Rightarrow> account option \<Rightarrow> followRequest" where
  "exampleFollowRequest i target =
     \<lparr>followRequest.ID = i, followRequest.URI = ''https://example.org/follow/'' @ i,
      followRequest.AccountID = ''01'', followRequest.Account = None,
      followRequest.TargetAccountID = (case target of None \<Rightarrow> ''gone'' | Some a \<Rightarrow> account.ID a),
      followRequest.TargetAccount = target\<rparr>"


text \<open>A connection whose store counts the updates that name \<open>updated_at\<close>.\<close>

definition countingConn :: "nat conn" where
  "countingConn =
     \<lparr>SelectAttachment = (\<lambda>id' s. ((\<lparr>mediaAttachment.ID = id', UpdatedAt = 1\<rparr>, None), s)),
      UpdateAttachmentExec = (\<lambda>media columns s.
        if ''updated_at'' \<in> set columns \<and> UpdatedAt media = 1000 then (None, Suc s)
        else (Some (ErrOther ''stale''), s)),
      ProcessError = (\<lambda>err. err)\<rparr>"

text \<open>
  A store that holds the ids of the follow rows that are left.  It lists the outgoing
  follows \<open>f1\<close> (to a remote account), \<open>f2\<close> (to a local account) and \<open>f3\<close> (whose target
  account is missing) and the outgoing follow request \<open>r1\<close> (to a remote account) as long
  as their rows are there, and a deletion takes the row away.  While the marker \<open>down\<close>
  is in the store, the deletion of \<open>f2\<close> fails.
\<close>

definition edgeDB :: "string list DB" where
  "edgeDB =
     quietDB
       \<lparr>GetAccountFollows := (\<lambda>accountID s.
          ((filter (\<lambda>follow. follow.ID follow \<in> set s)
              [exampleFollow ''f1'' (Some (exampleAccount ''02'' ''remote.example'')),
               exampleFollow ''f2'' (Some (exampleAccount ''03'' [])),
               exampleFollow ''f3'' None], None), s)),
        GetAccountFollowRequesting := (\<lambda>accountID s.
          ((filter (\<lambda>followRequest. followRequest.ID followRequest \<in> set s)
              [exampleFollowRequest ''r1'' (Some (exampleAccount ''04'' ''other.example''))],
            Some ErrNoEntries), s)),
        DeleteFollowByID := (\<lambda>id' s.
          if id' = ''f2'' \<and> ''down'' \<in> set s then (Some (ErrOther ''database is down''), s)
          else (None, removeAll id' s)),
        DeleteFollowRequestByID := (\<lambda>id' s. (None, removeAll id' s))\<rparr>"

text \<open>
  Row deletions run one after the other on the store: whether all of them return nil, and
  the store that they leave.
\<close>

fun allSucceed :: "('a \<Rightarrow> 's \<Rightarrow> error option \<times> 's) \<Rightarrow> 'a list \<Rightarrow> 's \<Rightarrow> bool" where
  "allSucceed del [] s = True"
| "allSucceed del (x # xs) s = (fst (del x s) = None \<and> allSucceed del xs (snd (del x s)))"

fun afterDeletes :: "('a \<Rightarrow> 's \<Rightarrow> error option \<times> 's) \<Rightarrow> 'a list \<Rightarrow> 's \<Rightarrow> 's" where
  "afterDeletes del [] s = s"
| "afterDeletes del (x # xs) s = afterDeletes del xs (snd (del x s))"

text \<open>The warnings of the policy: one for each edge whose target account is missing.\<close>

definition targetMissingWarnings :: "account \<Rightarrow> follow list \<Rightarrow> logEntry list" where
  "targetMissingWarnings deleted edges =
     (if IsLocal deleted
      then map (\<lambda>follow. Log WARN ''follow had no TargetAccount, likely race condition'' [])
             (filter (\<lambda>follow. follow.TargetAccount follow = None) edges)
      else [])"

text \<open>
  The two halves of the follow step, as conditions on the store: every listing returns nil
  or \<open>db.ErrNoEntries\<close> and every row deletion returns nil.  \<open>afterIncoming\<close> is the state
  of the process between the halves.
\<close>

definition outgoingOK :: "'s DB \<Rightarrow> string \<Rightarrow> 's \<Rightarrow> bool" where
  "outgoingOK db i s =
     (let r3 = GetAccountFollows db i s;
          s3 = afterDeletes (\<lambda>follow. DeleteFollowByID db (follow.ID follow)) (fst (fst r3)) (snd r3);
          r4 = GetAccountFollowRequesting db i s3
      in notNoEntries (snd (fst r3)) = None \<and>
         allSucceed (\<lambda>follow. DeleteFollowByID db (follow.ID follow)) (fst (fst r3)) (snd r3) \<and>
         notNoEntries (snd (fst r4)) = None \<and>
         allSucceed (\<lambda>fr. DeleteFollowRequestByID db (followRequest.ID fr)) (fst (fst r4)) (snd r4))"

definition incomingOK :: "'s DB \<Rightarrow> string \<Rightarrow> 's \<Rightarrow> bool" where
  "incomingOK db i s =
     (let r1 = GetAccountFollowers db i s;
          s1 = afterDeletes (\<lambda>follow. DeleteFollowByID db (follow.ID follow)) (fst (fst r1)) (snd r1);
          r2 = GetAccountFollowRequests db i s1
      in notNoEntries (snd (fst r1)) = None \<and>
         allSucceed (\<lambda>follow. DeleteFollowByID db (follow.ID follow)) (fst (fst r1)) (snd r1) \<and>
         notNoEntries (snd (fst r2)) = None \<and>
         allSucceed (\<lambda>fr. DeleteFollowRequestByID db (followRequest.ID fr)) (fst (fst r2)) (snd r2))"

definition afterIncoming :: "'s DB \<Rightarrow> string \<Rightarrow> 's world \<Rightarrow> 's world" where
  "afterIncoming db i w =
     (let r1 = GetAccountFollowers db i (store w);
          followedBy = fst (fst r1);
          s1 = afterDeletes (\<lambda>follow. DeleteFollowByID db (follow.ID follow)) followedBy (snd r1);
          r2 = GetAccountFollowRequests db i s1;
          followRequestedBy = fst (fst r2);
          s2 = afterDeletes (\<lambda>fr. DeleteFollowRequestByID db (followRequest.ID fr)) followRequestedBy (snd r2)
      in w\<lparr>store := s2,
           calls := calls w @
             [GetAccountFollowersCall i] @
             map (\<lambda>follow. DeleteFollowByIDCall (follow.ID follow)) followedBy @
             [GetAccountFollowRequestsCall i] @
             map (\<lambda>fr. DeleteFollowRequestByIDCall (followRequest.ID fr)) followRequestedBy\<rparr>)"

text \<open>
  An environment in which the hash cannot be made, and a store that holds the password
  hash of the one user: the lookup returns the user with the stored hash, the listing
  returns one token, and an update that names \<open>encrypted_password\<close> stores the hash of
  the user that it is given.
\<close>

definition failingEnv :: env where
  "failingEnv = \<lparr>Now = 1000, NewUUID = Inr ''0123456789abcdef'',
                  GenerateFromPassword = (\<lambda>password cost. Inl (ErrOther ''crypto/rand: unavailable''))\<rparr>"

definition userDB :: "string DB" where
  "userDB =
     quietDB
       \<lparr>GetUserByAccountID := (\<lambda>accountID s. (Inr (exampleUser\<lparr>EncryptedPassword := s\<rparr>), s)),
        GetWhere := (\<lambda>where' s. (([\<lparr>token.ID = ''t1'', ClientID = ''c1''\<rparr>], None), s)),
        UpdateUser := (\<lambda>user columns s.
          if ''encrypted_password'' \<in> set columns then (None, EncryptedPassword user) else (None, s))\<rparr>"

text \<open>
  Modelled from the spec: the paginated listing of the Persistent Store is not in the
  three files.  The spec says that the statuses are ordered so that each page advances a
  cursor past the last row of the previous page, and that the limit bounds the page.
  \<open>rowsAfter\<close> gives the rows of an ordered listing that come after the row whose id is
  the cursor, all rows for the empty cursor.  \<open>pagedStore\<close> says of a store that it lists
  the statuses of the account like this, that it lists the reblogs of a status as
  \<open>boostsOf\<close> gives them, and that it finds exactly the accounts that \<open>accountOf\<close> gives,
  answering \<open>db.ErrNoEntries\<close> for the others; the errors of the listings, if any, are
  \<open>db.ErrNoEntries\<close>.
\<close>

definition rowsAfter :: "string \<Rightarrow> status list \<Rightarrow> status list" where
  "rowsAfter maxID rows =
     (if maxID = [] then rows else tl (dropWhile (\<lambda>row. status.ID row \<noteq> maxID) rows))"

text \<open>
  The events and the warnings that the status step owes for one status: the note event,
  then one announce event for each reblog whose account is attached to the reblog or
  found in the store, and one warning for each reblog whose account is neither.
\<close>

definition resolveBooster :: "(string \<Rightarrow> account option) \<Rightarrow> status \<Rightarrow> account option" where
  "resolveBooster accountOf boost =
     (case status.Account boost of
        Some boostAcc \<Rightarrow> Some boostAcc
      | None \<Rightarrow> accountOf (status.AccountID boost))"

definition announceEvent :: "account \<Rightarrow> status \<Rightarrow> account \<Rightarrow> fromClientAPI" where
  "announceEvent account status boostAcc =
     \<lparr>APObjectType = ActivityAnnounce, APActivityType = ActivityUndo,
      GTSModel = Some (StatusModel status), OriginAccount = Some boostAcc,
      fromClientAPI.TargetAccount = Some account\<rparr>"

definition noteEvent :: "account \<Rightarrow> status \<Rightarrow> fromClientAPI" where
  "noteEvent account status =
     \<lparr>APObjectType = ObjectNote, APActivityType = ActivityDelete,
      GTSModel = Some (StatusModel status), OriginAccount = Some account,
      fromClientAPI.TargetAccount = Some account\<rparr>"

definition statusEvents ::
  "account \<Rightarrow> (status \<Rightarrow> status list) \<Rightarrow> (string \<Rightarrow> account option) \<Rightarrow> status \<Rightarrow> fromClientAPI list" where
  "statusEvents account boostsOf accountOf status0 =
     (let status = status0\<lparr>status.Account := Some account\<rparr>
      in noteEvent account status #
         map (announceEvent account status) (List.map_filter (resolveBooster accountOf) (boostsOf status)))"

definition boostWarnings :: "(string \<Rightarrow> account option) \<Rightarrow> status list \<Rightarrow> logEntry list" where
  "boostWarnings accountOf boosts =
     map (\<lambda>boost. Log WARN ''no account found with id %s for boost %s''
                   [status.AccountID boost, status.ID boost])
       (filter (\<lambda>boost. resolveBooster accountOf boost = None) boosts)"

definition statusWarnings ::
  "account \<Rightarrow> (status \<Rightarrow> status list) \<Rightarrow> (string \<Rightarrow> account option) \<Rightarrow> status \<Rightarrow> logEntry list" where
  "statusWarnings account boostsOf accountOf status0 =
     boostWarnings accountOf (boostsOf (status0\<lparr>status.Account := Some account\<rparr>))"

definition pagedStore ::
  "'s DB \<Rightarrow> string \<Rightarrow> status list \<Rightarrow> (status \<Rightarrow> status list) \<Rightarrow> (string \<Rightarrow> account option) \<Rightarrow> bool" where
  "pagedStore db accountID rows boostsOf accountOf \<longleftrightarrow>
     (\<forall>limit maxID s. 0 < limit \<longrightarrow>
        (\<exists>e. fst (GetAccountStatuses db accountID limit False False maxID [] False False s) =
               (take limit (rowsAfter maxID rows), e) \<and> notNoEntries e = None)) \<and>
     (\<forall>status s. \<exists>e. fst (GetStatusReblogs db status s) = (boostsOf status, e) \<and> notNoEntries e = None) \<and>
     (\<forall>id' s. case accountOf id' of
                 Some a \<Rightarrow> fst (GetAccountByID db id' s) = Inr a
               | None \<Rightarrow> (\<exists>e. fst (GetAccountByID db id' s) = Inl e \<and> errors_Is e ErrNoEntries))"

text \<open>A list cut into pages of \<open>n\<close> rows; the last page may be shorter.\<close>

function chunks :: "nat \<Rightarrow> 'a list \<Rightarrow> 'a list list" where
  "chunks n xs = (if n = 0 \<or> xs = [] then [] else take n xs # chunks n (drop n xs))"
  by pat_completeness auto
termination
  by (relation "measure (\<lambda>(n, xs). length xs)") auto

declare chunks.simps [simp del]

definition isPageCall :: "call \<Rightarrow> bool" where
  "isPageCall c =
     (case c of
        GetAccountStatusesCall accountID limit excludeReplies excludeReblogs maxID minID mediaOnly publicOnly
          \<Rightarrow> True
      | _ \<Rightarrow> False)"

definition isNote :: "fromClientAPI \<Rightarrow> bool" where
  "isNote msg \<longleftrightarrow> APObjectType msg = ObjectNote \<and> APActivityType msg = ActivityDelete"

definition isAnnounce :: "fromClientAPI \<Rightarrow> bool" where
  "isAnnounce msg \<longleftrightarrow> APObjectType msg = ActivityAnnounce \<and> APActivityType msg = ActivityUndo"

text \<open>
  An account with 120 statuses.  The first has two reblogs, one with its account attached
  and one whose account does not exist; the second has one reblog whose account the store
  finds; the others have none.  The store counts its reads.
\<close>

definition statusRow :: "nat \<Rightarrow> status" where
  "statusRow n = \<lparr>status.ID = replicate (Suc n) CHR ''s'', status.AccountID = ''01'', status.Account = None\<rparr>"

definition rows120 :: "status list" where
  "rows120 = map statusRow [0..<120]"

definition exampleBoostsOf :: "status \<Rightarrow> status list" where
  "exampleBoostsOf status =
     (if status.ID status = ''s''
      then [\<lparr>status.ID = ''b1'', status.AccountID = ''02'',
             status.Account = Some (exampleAccount ''02'' ''remote.example'')\<rparr>,
            \<lparr>status.ID = ''b2'', status.AccountID = ''gone'', status.Account = None\<rparr>]
      else if status.ID status = ''ss''
      then [\<lparr>status.ID = ''b3'', status.AccountID = ''03'', status.Account = None\<rparr>]
      else [])"

definition exampleAccountOf :: "string \<Rightarrow> account option" where
  "exampleAccountOf id' = (if id' = ''03'' then Some (exampleAccount ''03'' []) else None)"

definition listDB ::
  "status list \<Rightarrow> (status \<Rightarrow> status list) \<Rightarrow> (string \<Rightarrow> account option) \<Rightarrow> nat DB" where
  "listDB rows boostsOf accountOf =
     quietDB
       \<lparr>GetAccountStatuses :=
          (\<lambda>accountID limit excludeReplies excludeReblogs maxID minID mediaOnly publicOnly s.
             ((take limit (rowsAfter maxID rows),
               if rowsAfter maxID rows = [] then Some ErrNoEntries else None), Suc s)),
        GetStatusReblogs := (\<lambda>status s. ((boostsOf status, None), Suc s)),
        GetAccountByID := (\<lambda>id' s.
          (case accountOf id' of Some a \<Rightarrow> Inr a | None \<Rightarrow> Inl ErrNoEntries, Suc s))\<rparr>"

section \<open>Properties of the stubbification transforms\<close>

text \<open>
  Claim C4.  For every account, origin and reading of the clock, \<^verbatim>\<open>stubbifyAccount\<close>
  leaves the fetch time at the zero time, the avatar and header references, the display
  name, the emoji references, the profile fields, the rendered and the raw bio, the
  alias, the moved-to reference, the reason, the content type and the custom styling
  empty, the memorial and the discoverable flag false, the suspension time at the reading
  of the clock, the suspension origin at the given origin, hide-collections true and RSS
  false.  It returns the twenty-one column names of these fields, each once (the column
  \<open>emojis\<close> stands for the emoji references).  Nothing else of the old profile is left:
  the result is the same for any two accounts with the same id, username and domain.
\<close>

theorem stubbifyAccount_clears:
  "FetchedAt (fst (stubbifyAccount now account origin)) = never \<and>
   AvatarMediaAttachmentID (fst (stubbifyAccount now account origin)) = [] \<and>
   AvatarRemoteURL (fst (stubbifyAccount now account origin)) = [] \<and>
   HeaderMediaAttachmentID (fst (stubbifyAccount now account origin)) = [] \<and>
   HeaderRemoteURL (fst (stubbifyAccount now account origin)) = [] \<and>
   DisplayName (fst (stubbifyAccount now account origin)) = [] \<and>
   EmojiIDs (fst (stubbifyAccount now account origin)) = [] \<and>
   Emojis (fst (stubbifyAccount now account origin)) = [] \<and>
   Fields (fst (stubbifyAccount now account origin)) = [] \<and>
   Note (fst (stubbifyAccount now account origin)) = [] \<and>
   NoteRaw (fst (stubbifyAccount now account origin)) = [] \<and>
   Memorial (fst (stubbifyAccount now account origin)) = Some False \<and>
   AlsoKnownAs (fst (stubbifyAccount now account origin)) = [] \<and>
   MovedToAccountID (fst (stubbifyAccount now account origin)) = [] \<and>
   Reason (fst (stubbifyAccount now account origin)) = [] \<and>
   Discoverable (fst (stubbifyAccount now account origin)) = Some False \<and>
   StatusContentType (fst (stubbifyAccount now account origin)) = [] \<and>
   CustomCSS (fst (stubbifyAccount now account origin)) = [] \<and>
   SuspendedAt (fst (stubbifyAccount now account origin)) = now \<and>
   SuspensionOrigin (fst (stubbifyAccount now account origin)) = origin \<and>
   HideCollections (fst (stubbifyAccount now account origin)) = Some True \<and>
   EnableRSS (fst (stubbifyAccount now account origin)) = Some False \<and>
   snd (stubbifyAccount now account origin) =
     [''fetched_at'', ''avatar_media_attachment_id'', ''avatar_remote_url'',
      ''header_media_attachment_id'', ''header_remote_url'', ''display_name'', ''emojis'',
      ''fields'', ''note'', ''note_raw'', ''memorial'', ''also_known_as'',
      ''moved_to_account_id'', ''reason'', ''discoverable'', ''status_content_type'',
      ''custom_css'', ''suspended_at'', ''suspension_origin'', ''hide_collections'',
      ''enable_rss''] \<and>
   distinct (snd (stubbifyAccount now account origin)) \<and>
   fst (stubbifyAccount now account origin) =
     fst (stubbifyAccount now
            (other\<lparr>account.ID := account.ID account, Username := Username account,
                   Domain := Domain account\<rparr>) origin)"
  by (simp add: stubbifyAccount_def falseBool_def trueBool_def account.equality)

text \<open>
  Claim C7.  Both transforms leave the identity alone: the id, the username and the domain
  of the account are what they were and the columns \<open>id\<close>, \<open>username\<close> and \<open>domain\<close> are
  not among the returned ones; the email of the user is what it was and, when columns are
  returned, \<open>email\<close> is not among them.
\<close>

theorem stubbify_keeps_identity:
  "account.ID (fst (stubbifyAccount now account origin)) = account.ID account \<and>
   Username (fst (stubbifyAccount now account origin)) = Username account \<and>
   Domain (fst (stubbifyAccount now account origin)) = Domain account \<and>
   ''id'' \<notin> set (snd (stubbifyAccount now account origin)) \<and>
   ''username'' \<notin> set (snd (stubbifyAccount now account origin)) \<and>
   ''domain'' \<notin> set (snd (stubbifyAccount now account origin)) \<and>
   Email (fst (stubbifyUser e user)) = Email user \<and>
   user.ID (fst (stubbifyUser e user)) = user.ID user \<and>
   (case snd (stubbifyUser e user) of
      Inl err \<Rightarrow> True
    | Inr columns \<Rightarrow> ''email'' \<notin> set columns \<and> ''id'' \<notin> set columns)"
  by (simp add: stubbifyAccount_def stubbifyUser_def split: sum.splits)

theorem stubbify_keeps_identity_witness:
  "account.ID (fst (stubbifyAccount 1000 (exampleAccount ''01'' []) ''origin'')) = ''01'' \<and>
   Username (fst (stubbifyAccount 1000 (exampleAccount ''01'' []) ''origin'')) = ''user01'' \<and>
   Domain (fst (stubbifyAccount 1000 (exampleAccount ''01'' []) ''origin'')) = [] \<and>
   Email (fst (stubbifyUser exampleEnv exampleUser)) = ''a@example.org'' \<and>
   (\<exists>columns. snd (stubbifyUser exampleEnv exampleUser) = Inr columns \<and> ''email'' \<notin> set columns)"
  using stubbify_keeps_identity [of 1000 "exampleAccount ''01'' []" "''origin''" exampleEnv exampleUser]
  by (simp add: exampleAccount_def exampleUser_def exampleEnv_def stubbifyUser_def)

section \<open>Properties of the entry points that hand work over\<close>

text \<open>
  Claim C6.  For every account, \<^verbatim>\<open>DeleteSelf\<close> returns nil and hands the workers one batch
  of one event: object type \<open>ActorPerson\<close>, activity type \<open>ActivityDelete\<close>, origin and
  target the account itself.  It calls no collaborator: the store, the list of calls, the
  media cache and the log are what they were.
\<close>

theorem DeleteSelf_enqueues_one:
  "DeleteSelf account w =
     (None,
      w\<lparr>queue := queue w @
           [[\<lparr>APObjectType = ActorPerson, APActivityType = ActivityDelete, GTSModel = None,
              OriginAccount = Some account, fromClientAPI.TargetAccount = Some account\<rparr>]]\<rparr>) \<and>
   store (snd (DeleteSelf account w)) = store w \<and>
   calls (snd (DeleteSelf account w)) = calls w \<and>
   mediaCache (snd (DeleteSelf account w)) = mediaCache w \<and>
   logs (snd (DeleteSelf account w)) = logs w"
  by (simp add: DeleteSelf_def EnqueueClientAPI_def)

text \<open>
  Claim C10.  \<^verbatim>\<open>MediaPrune\<close> returns a bad-request error exactly when its argument is
  negative, and then it has not called the media manager: the state of the process is
  what it was.  For an argument that is not negative it calls \<^verbatim>\<open>PruneAll\<close> once, with the
  argument and \<open>false\<close>; it returns nil when that call returns nil, and an internal error
  that wraps the error of the call otherwise.
\<close>

theorem MediaPrune_validates:
  "(mediaRemoteCacheDays < 0 \<longrightarrow>
      (\<exists>err msg. MediaPrune PruneAll mediaRemoteCacheDays w = (Some (ErrorBadRequest err msg), w))) \<and>
   (0 \<le> mediaRemoteCacheDays \<longrightarrow>
      calls (snd (MediaPrune PruneAll mediaRemoteCacheDays w)) =
        calls w @ [PruneAllCall mediaRemoteCacheDays False] \<and>
      store (snd (MediaPrune PruneAll mediaRemoteCacheDays w)) =
        snd (PruneAll mediaRemoteCacheDays False (store w)) \<and>
      fst (MediaPrune PruneAll mediaRemoteCacheDays w) =
        (case fst (PruneAll mediaRemoteCacheDays False (store w)) of
           None \<Rightarrow> None
         | Some err \<Rightarrow> Some (ErrorInternalError (Errorf ''MediaPrune: %w'' err)))) \<and>
   ((\<exists>err msg. fst (MediaPrune PruneAll mediaRemoteCacheDays w) = Some (ErrorBadRequest err msg))
      \<longleftrightarrow> mediaRemoteCacheDays < 0)"
  by (auto simp add: MediaPrune_def invoke_def Let_def split: prod.splits option.splits)

theorem MediaPrune_validates_witness:
  "(\<exists>err msg. MediaPrune (\<lambda>days dry s. (None, s)) (- 1) (emptyWorld ()) =
        (Some (ErrorBadRequest err msg), emptyWorld ())) \<and>
   MediaPrune (\<lambda>days dry s. (None, s)) 0 (emptyWorld ()) =
     (None, (emptyWorld ())\<lparr>calls := [PruneAllCall 0 False]\<rparr>) \<and>
   fst (MediaPrune (\<lambda>days dry s. (Some ErrNoEntries, s)) 30 (emptyWorld ())) =
     Some (ErrorInternalError (Errorf ''MediaPrune: %w'' ErrNoEntries))"
  using MediaPrune_validates [of "- 1" "\<lambda>days dry s. (None, s)" "emptyWorld ()"]
        MediaPrune_validates [of 30 "\<lambda>days dry s. (Some ErrNoEntries, s)" "emptyWorld ()"]
  by (simp add: MediaPrune_def invoke_def emptyWorld_def)

section \<open>Properties of the media repository\<close>

lemma invoke_eq:
  "invoke c f w = (fst (f (store w)), w\<lparr>store := snd (f (store w)), calls := calls w @ [c]\<rparr>)"
  by (simp add: invoke_def split: prod.splits)

text \<open>
  Claim C8.  For every attachment, column list and reading of the clock,
  \<^verbatim>\<open>UpdateAttachment\<close> sets the update time of the attachment to the reading of the clock
  and runs the update of the connection on that attachment: the store after the call is
  the store after that update, and the error returned is the error of that update, passed
  through \<^verbatim>\<open>ProcessError\<close>.  The update names no column when the caller named none, and
  otherwise names the columns of the caller followed by \<open>updated_at\<close>: a list of the
  caller that is not empty always reaches the store with \<open>updated_at\<close> in it.  The cache
  takes the stamped attachment exactly when the update succeeds.
\<close>

theorem UpdateAttachment_stamps:
  "UpdateAttachment c now media columns w =
     (let stamped = media\<lparr>UpdatedAt := now\<rparr>;
          persisted = (if columns = [] then [] else columns @ [''updated_at'']);
          r = UpdateAttachmentExec c stamped persisted (store w)
      in ((stamped, map_option (ProcessError c) (fst r)),
          w\<lparr>store := snd r,
            calls := calls w @ [StoreCall stamped, UpdateAttachmentCall stamped persisted],
            mediaCache :=
              (if fst r = None
               then (mediaCache w)((''ID'', [mediaAttachment.ID media]) \<mapsto> stamped)
               else mediaCache w)\<rparr>)) \<and>
   UpdatedAt (fst (fst (UpdateAttachment c now media columns w))) = now \<and>
   fst (fst (UpdateAttachment c now media columns w)) = media\<lparr>UpdatedAt := now\<rparr> \<and>
   calls (snd (UpdateAttachment c now media columns w)) =
     calls w @ [StoreCall (media\<lparr>UpdatedAt := now\<rparr>),
                UpdateAttachmentCall (media\<lparr>UpdatedAt := now\<rparr>)
                  (if columns = [] then [] else columns @ [''updated_at''])] \<and>
   (columns \<noteq> [] \<longrightarrow>
      (\<exists>persisted. UpdateAttachmentCall (media\<lparr>UpdatedAt := now\<rparr>) persisted
                      \<in> set (calls (snd (UpdateAttachment c now media columns w))) \<and>
                   ''updated_at'' \<in> set persisted \<and> set columns \<subseteq> set persisted)) \<and>
   (columns \<noteq> [] \<longrightarrow>
      (\<exists>persisted.
         store (snd (UpdateAttachment c now media columns w)) =
           snd (UpdateAttachmentExec c (media\<lparr>UpdatedAt := now\<rparr>) persisted (store w)) \<and>
         snd (fst (UpdateAttachment c now media columns w)) =
           map_option (ProcessError c)
             (fst (UpdateAttachmentExec c (media\<lparr>UpdatedAt := now\<rparr>) persisted (store w))) \<and>
         persisted = columns @ [''updated_at''])) \<and>
   (columns = [] \<longrightarrow>
      store (snd (UpdateAttachment c now media columns w)) =
        snd (UpdateAttachmentExec c (media\<lparr>UpdatedAt := now\<rparr>) [] (store w)))"
proof -
  have eq: "UpdateAttachment c now media columns w =
     (let stamped = media\<lparr>UpdatedAt := now\<rparr>;
          persisted = (if columns = [] then [] else columns @ [''updated_at'']);
          r = UpdateAttachmentExec c stamped persisted (store w)
      in ((stamped, map_option (ProcessError c) (fst r)),
          w\<lparr>store := snd r,
            calls := calls w @ [StoreCall stamped, UpdateAttachmentCall stamped persisted],
            mediaCache :=
              (if fst r = None
               then (mediaCache w)((''ID'', [mediaAttachment.ID media]) \<mapsto> stamped)
               else mediaCache w)\<rparr>))"
    by (auto simp add: UpdateAttachment_def Store_def invoke_eq Let_def split: option.splits)
  have tr: "columns \<noteq> [] \<longrightarrow>
      (\<exists>persisted. UpdateAttachmentCall (media\<lparr>UpdatedAt := now\<rparr>) persisted
                      \<in> set (calls (snd (UpdateAttachment c now media columns w))) \<and>
                   ''updated_at'' \<in> set persisted \<and> set columns \<subseteq> set persisted)"
    unfolding eq by (auto simp add: Let_def)
  have rest: "UpdatedAt (fst (fst (UpdateAttachment c now media columns w))) = now \<and>
   fst (fst (UpdateAttachment c now media columns w)) = media\<lparr>UpdatedAt := now\<rparr> \<and>
   calls (snd (UpdateAttachment c now media columns w)) =
     calls w @ [StoreCall (media\<lparr>UpdatedAt := now\<rparr>),
                UpdateAttachmentCall (media\<lparr>UpdatedAt := now\<rparr>)
                  (if columns = [] then [] else columns @ [''updated_at''])] \<and>
   (columns \<noteq> [] \<longrightarrow>
      (\<exists>persisted.
         store (snd (UpdateAttachment c now media columns w)) =
           snd (UpdateAttachmentExec c (media\<lparr>UpdatedAt := now\<rparr>) persisted (store w)) \<and>
         snd (fst (UpdateAttachment c now media columns w)) =
           map_option (ProcessError c)
             (fst (UpdateAttachmentExec c (media\<lparr>UpdatedAt := now\<rparr>) persisted (store w))) \<and>
         persisted = columns @ [''updated_at''])) \<and>
   (columns = [] \<longrightarrow>
      store (snd (UpdateAttachment c now media columns w)) =
        snd (UpdateAttachmentExec c (media\<lparr>UpdatedAt := now\<rparr>) [] (store w)))"
    unfolding eq by (simp add: Let_def)
  show ?thesis
    using eq tr rest by blast
qed

theorem UpdateAttachment_stamps_witness:
  "[''description''] \<noteq> [] \<and>
   UpdateAttachment countingConn 1000 \<lparr>mediaAttachment.ID = ''m1'', UpdatedAt = 3\<rparr> [''description'']
       (emptyWorld 0) =
     ((\<lparr>mediaAttachment.ID = ''m1'', UpdatedAt = 1000\<rparr>, None),
      \<lparr>store = 1,
       mediaCache = Map.empty((''ID'', [''m1'']) \<mapsto> \<lparr>mediaAttachment.ID = ''m1'', UpdatedAt = 1000\<rparr>),
       calls = [StoreCall \<lparr>mediaAttachment.ID = ''m1'', UpdatedAt = 1000\<rparr>,
                UpdateAttachmentCall \<lparr>mediaAttachment.ID = ''m1'', UpdatedAt = 1000\<rparr>
                  [''description'', ''updated_at'']],
       queue = [], logs = []\<rparr>)"
  using UpdateAttachment_stamps
          [of countingConn 1000 "\<lparr>mediaAttachment.ID = ''m1'', UpdatedAt = 3\<rparr>" "[''description'']"
              "emptyWorld 0"]
  by (simp add: countingConn_def emptyWorld_def Let_def)

lemma GetAttachmentByID_frame:
  "logs (snd (GetAttachmentByID c i w)) = logs w \<and>
   queue (snd (GetAttachmentByID c i w)) = queue w \<and>
   filter isLoadCall (calls (snd (GetAttachmentByID c i w))) =
     filter isLoadCall (calls w) @ [LoadCall ''ID'' [i]]"
  by (simp add: GetAttachmentByID_def getAttachment_def Load_def Let_def invoke_eq isLoadCall_def
           split: option.splits prod.splits sum.splits)

lemma length_loadOutcomes: "length (loadOutcomes c ids w) = length ids"
  by (induction ids arbitrary: w) (auto split: prod.splits sum.splits)

lemma attachmentsLoop_outcomes:
  "fst (attachmentsLoop c ids acc w) =
     acc @ map projr (filter (\<lambda>r. \<not> isl r) (loadOutcomes c ids w)) \<and>
   logs (snd (attachmentsLoop c ids acc w)) =
     logs w @ map (\<lambda>i. Log ERROR ''error getting attachment %q: %v'' [i])
                (map fst (filter (\<lambda>p. isl (snd p)) (zip ids (loadOutcomes c ids w)))) \<and>
   queue (snd (attachmentsLoop c ids acc w)) = queue w \<and>
   filter isLoadCall (calls (snd (attachmentsLoop c ids acc w))) =
     filter isLoadCall (calls w) @ map (\<lambda>i. LoadCall ''ID'' [i]) ids"
proof (induction ids arbitrary: acc w)
  case Nil
  show ?case by simp
next
  case (Cons i ids)
  obtain r w1 where step: "GetAttachmentByID c i w = (r, w1)"
    by (cases "GetAttachmentByID c i w")
  have frame: "logs w1 = logs w" "queue w1 = queue w"
    "filter isLoadCall (calls w1) = filter isLoadCall (calls w) @ [LoadCall ''ID'' [i]]"
    using GetAttachmentByID_frame [of c i w] step by simp_all
  show ?case
  proof (cases r)
    case (Inl err)
    show ?thesis
      using Cons.IH [of acc "logf ERROR ''error getting attachment %q: %v'' [i] w1"] step Inl frame
      by (simp add: logf_def)
  next
    case (Inr a)
    show ?thesis
      using Cons.IH [of "acc @ [a]" w1] step Inr frame by simp
  qed
qed

text \<open>
  Claim C9.  For every list of ids, \<^verbatim>\<open>GetAttachmentsByIDs\<close> returns a nil error.  It issues
  one cached load for each id, in the order of the ids.  The list that it returns holds
  the attachments of the loads that succeeded, in that order, so it is never longer than
  the list of ids; each load that failed has left one line in the log, with its id, and
  nothing in the result.  When every load fails the result is the empty list, still with
  a nil error.
\<close>

theorem GetAttachmentsByIDs_best_effort:
  "snd (fst (GetAttachmentsByIDs c ids w)) = None \<and>
   length (loadOutcomes c ids w) = length ids \<and>
   fst (fst (GetAttachmentsByIDs c ids w)) =
     map projr (filter (\<lambda>r. \<not> isl r) (loadOutcomes c ids w)) \<and>
   logs (snd (GetAttachmentsByIDs c ids w)) =
     logs w @ map (\<lambda>i. Log ERROR ''error getting attachment %q: %v'' [i])
                (map fst (filter (\<lambda>p. isl (snd p)) (zip ids (loadOutcomes c ids w)))) \<and>
   filter isLoadCall (calls (snd (GetAttachmentsByIDs c ids w))) =
     filter isLoadCall (calls w) @ map (\<lambda>i. LoadCall ''ID'' [i]) ids \<and>
   length (fst (fst (GetAttachmentsByIDs c ids w))) \<le> length ids \<and>
   ((\<forall>r \<in> set (loadOutcomes c ids w). isl r) \<longrightarrow>
      fst (GetAttachmentsByIDs c ids w) = ([], None))"
proof -
  obtain as w1 where run: "attachmentsLoop c ids [] w = (as, w1)"
    by (cases "attachmentsLoop c ids [] w")
  have res: "GetAttachmentsByIDs c ids w = ((as, None), w1)"
    using run by (simp add: GetAttachmentsByIDs_def)
  have out: "as = map projr (filter (\<lambda>r. \<not> isl r) (loadOutcomes c ids w))"
    "logs w1 = logs w @ map (\<lambda>i. Log ERROR ''error getting attachment %q: %v'' [i])
                (map fst (filter (\<lambda>p. isl (snd p)) (zip ids (loadOutcomes c ids w))))"
    "filter isLoadCall (calls w1) = filter isLoadCall (calls w) @ map (\<lambda>i. LoadCall ''ID'' [i]) ids"
    using attachmentsLoop_outcomes [of c ids "[]" w] run by simp_all
  have len: "length as \<le> length ids"
    unfolding out(1) using length_loadOutcomes [of c ids w]
    by (metis length_filter_le length_map)
  have allfail: "(\<forall>r \<in> set (loadOutcomes c ids w). isl r) \<longrightarrow> as = []"
    unfolding out(1) by (simp add: filter_empty_conv)
  show ?thesis
    using out len allfail by (simp add: res length_loadOutcomes)
qed

theorem GetAttachmentsByIDs_best_effort_witness:
  "GetAttachmentsByIDs exampleConn [''a'', ''b'', ''a''] (emptyWorld ()) =
     (([\<lparr>mediaAttachment.ID = ''a'', UpdatedAt = 1\<rparr>, \<lparr>mediaAttachment.ID = ''a'', UpdatedAt = 1\<rparr>], None),
      \<lparr>store = (),
       mediaCache = Map.empty((''ID'', [''a'']) \<mapsto> \<lparr>mediaAttachment.ID = ''a'', UpdatedAt = 1\<rparr>),
       calls = [LoadCall ''ID'' [''a''], SelectAttachmentCall ''a'', LoadCall ''ID'' [''b''],
                SelectAttachmentCall ''b'', LoadCall ''ID'' [''a'']],
       queue = [],
       logs = [Log ERROR ''error getting attachment %q: %v'' [''b'']]\<rparr>) \<and>
   loadOutcomes exampleConn [''b'', ''b''] (emptyWorld ()) = [Inl ErrNoEntries, Inl ErrNoEntries] \<and>
   fst (GetAttachmentsByIDs exampleConn [''b'', ''b''] (emptyWorld ())) = ([], None)"
  using GetAttachmentsByIDs_best_effort [of exampleConn "[''b'', ''b'']" "emptyWorld ()"]
  by (simp add: GetAttachmentsByIDs_def GetAttachmentByID_def getAttachment_def Load_def
        invoke_eq exampleConn_def emptyWorld_def logf_def Let_def)

section \<open>Properties of the follow step\<close>

lemma unfollowSideEffectsFunc_eq:
  "unfollowSideEffectsFunc deleted deleted follow w =
     (undoFollowEvent deleted follow,
      if IsLocal deleted \<and> follow.TargetAccount follow = None
      then logf WARN ''follow had no TargetAccount, likely race condition'' [] w
      else w)"
  by (simp add: unfollowSideEffectsFunc_def undoFollowEvent_def split: option.splits)

lemma map_filter_append: "List.map_filter f (xs @ ys) = List.map_filter f xs @ List.map_filter f ys"
  by (simp add: List.map_filter_def)

lemma invoke_calls: "calls (snd (invoke c f w)) = calls w @ [c]"
  by (simp add: invoke_eq)

lemma invoke_queue: "queue (snd (invoke c f w)) = queue w"
  by (simp add: invoke_eq)

lemma exampleAccount_sel:
  "account.ID (exampleAccount i d) = i"
  "Domain (exampleAccount i d) = d"
  "IsLocal (exampleAccount i d) = (d = [])"
  by (simp_all add: exampleAccount_def IsLocal_def)

lemma exampleFollow_sel:
  "follow.ID (exampleFollow i t) = i"
  "follow.TargetAccount (exampleFollow i t) = t"
  by (simp_all add: exampleFollow_def)

lemma exampleFollowRequest_sel:
  "followRequest.ID (exampleFollowRequest i t) = i"
  "follow.TargetAccount (dummyFollow (exampleFollowRequest i t)) = t"
  by (simp_all add: exampleFollowRequest_def dummyFollow_def)

lemma targetMissingWarnings_simps:
  "targetMissingWarnings deleted [] = []"
  "targetMissingWarnings deleted (follow # edges) =
     (if IsLocal deleted \<and> follow.TargetAccount follow = None
      then [Log WARN ''follow had no TargetAccount, likely race condition'' []]
      else []) @ targetMissingWarnings deleted edges"
  "targetMissingWarnings deleted (xs @ ys) =
     targetMissingWarnings deleted xs @ targetMissingWarnings deleted ys"
  by (simp_all add: targetMissingWarnings_def)

lemma forEach_ok:
  "allSucceed del xs (store w)
   \<Longrightarrow> forEach (\<lambda>x w. wrap m (invoke (c x) (del x) w)) xs w =
       (None, w\<lparr>store := afterDeletes del xs (store w), calls := calls w @ map c xs\<rparr>)"
proof (induction xs arbitrary: w)
  case Nil
  show ?case by simp
next
  case (Cons x xs)
  let ?w1 = "w\<lparr>store := snd (del x (store w)), calls := calls w @ [c x]\<rparr>"
  have ok: "fst (del x (store w)) = None" and rest: "allSucceed del xs (store ?w1)"
    using Cons.prems by simp_all
  have "forEach (\<lambda>x w. wrap m (invoke (c x) (del x) w)) (x # xs) w =
          forEach (\<lambda>x w. wrap m (invoke (c x) (del x) w)) xs ?w1"
    using ok by (simp add: wrap_def invoke_eq)
  then show ?case using Cons.IH [OF rest] by simp
qed

lemma forEach_fail:
  "\<not> allSucceed del xs (store w)
   \<Longrightarrow> fst (forEach (\<lambda>x w. wrap m (invoke (c x) (del x) w)) xs w) \<noteq> None"
proof (induction xs arbitrary: w)
  case Nil
  then show ?case by simp
next
  case (Cons x xs)
  let ?w1 = "w\<lparr>store := snd (del x (store w)), calls := calls w @ [c x]\<rparr>"
  show ?case
  proof (cases "fst (del x (store w))")
    case (Some e)
    then show ?thesis by (simp add: wrap_def invoke_eq)
  next
    case None
    then have rest: "\<not> allSucceed del xs (store ?w1)" using Cons.prems by simp
    have "forEach (\<lambda>x w. wrap m (invoke (c x) (del x) w)) (x # xs) w =
            forEach (\<lambda>x w. wrap m (invoke (c x) (del x) w)) xs ?w1"
      using None by (simp add: wrap_def invoke_eq)
    then show ?thesis using Cons.IH [OF rest] by simp
  qed
qed

lemma forEach_queue:
  "queue (snd (forEach (\<lambda>x w. wrap m (invoke (c x) (del x) w)) xs w)) = queue w"
proof (induction xs arbitrary: w)
  case Nil
  show ?case by simp
next
  case (Cons x xs)
  let ?w1 = "w\<lparr>store := snd (del x (store w)), calls := calls w @ [c x]\<rparr>"
  show ?case
  proof (cases "fst (del x (store w))")
    case (Some e)
    then show ?thesis by (simp add: wrap_def invoke_eq)
  next
    case None
    have "forEach (\<lambda>x w. wrap m (invoke (c x) (del x) w)) (x # xs) w =
            forEach (\<lambda>x w. wrap m (invoke (c x) (del x) w)) xs ?w1"
      using None by (simp add: wrap_def invoke_eq)
    then show ?thesis using Cons.IH [of ?w1] by simp
  qed
qed

lemma unfollowLoop_step:
  "fst (DeleteFollowByID db (follow.ID follow) (store w)) = None
   \<Longrightarrow> unfollowLoop db (unfollowSideEffectsFunc deleted) deleted (follow # following) msgs w =
       unfollowLoop db (unfollowSideEffectsFunc deleted) deleted following
         (msgs @ List.map_filter (undoFollowEvent deleted) [follow])
         (w\<lparr>store := snd (DeleteFollowByID db (follow.ID follow) (store w)),
            calls := calls w @ [DeleteFollowByIDCall (follow.ID follow)],
            logs := logs w @ targetMissingWarnings deleted [follow]\<rparr>)"
  by (cases "undoFollowEvent deleted follow")
     (simp_all add: invoke_eq unfollowSideEffectsFunc_eq logf_def targetMissingWarnings_def)

lemma unfollowLoop_stop:
  "fst (DeleteFollowByID db (follow.ID follow) (store w)) = Some e
   \<Longrightarrow> unfollowLoop db pol deleted (follow # following) msgs w =
       ((Some (Errorf ''deleteAccountFollows: db error unfollowing account: %w'' e), msgs),
        w\<lparr>store := snd (DeleteFollowByID db (follow.ID follow) (store w)),
           calls := calls w @ [DeleteFollowByIDCall (follow.ID follow)]\<rparr>)"
  by (simp add: invoke_eq)

lemma unfollowLoop_ok:
  "allSucceed (\<lambda>follow. DeleteFollowByID db (follow.ID follow)) following (store w)
   \<Longrightarrow> unfollowLoop db (unfollowSideEffectsFunc deleted) deleted following msgs w =
       ((None, msgs @ List.map_filter (undoFollowEvent deleted) following),
        w\<lparr>store := afterDeletes (\<lambda>follow. DeleteFollowByID db (follow.ID follow)) following (store w),
           calls := calls w @ map (\<lambda>follow. DeleteFollowByIDCall (follow.ID follow)) following,
           logs := logs w @ targetMissingWarnings deleted following\<rparr>)"
proof (induction following arbitrary: msgs w)
  case Nil
  show ?case by (simp add: targetMissingWarnings_simps)
next
  case (Cons follow following)
  let ?w1 = "w\<lparr>store := snd (DeleteFollowByID db (follow.ID follow) (store w)),
               calls := calls w @ [DeleteFollowByIDCall (follow.ID follow)],
               logs := logs w @ targetMissingWarnings deleted [follow]\<rparr>"
  have ok: "fst (DeleteFollowByID db (follow.ID follow) (store w)) = None"
    and rest: "allSucceed (\<lambda>follow. DeleteFollowByID db (follow.ID follow)) following (store ?w1)"
    using Cons.prems by simp_all
  have split: "targetMissingWarnings deleted (follow # following) =
                 targetMissingWarnings deleted [follow] @ targetMissingWarnings deleted following"
    using targetMissingWarnings_simps(3) [of deleted "[follow]" following] by simp
  show ?case
    unfolding unfollowLoop_step [OF ok] Cons.IH [OF rest] split
    by (cases "undoFollowEvent deleted follow") simp_all
qed

lemma unfollowLoop_fail:
  "\<not> allSucceed (\<lambda>follow. DeleteFollowByID db (follow.ID follow)) following (store w)
   \<Longrightarrow> fst (fst (unfollowLoop db (unfollowSideEffectsFunc deleted) deleted following msgs w)) \<noteq> None"
proof (induction following arbitrary: msgs w)
  case Nil
  then show ?case by simp
next
  case (Cons follow following)
  show ?case
  proof (cases "fst (DeleteFollowByID db (follow.ID follow) (store w))")
    case (Some e)
    show ?thesis unfolding unfollowLoop_stop [OF Some] by simp
  next
    case None
    let ?w1 = "w\<lparr>store := snd (DeleteFollowByID db (follow.ID follow) (store w)),
                 calls := calls w @ [DeleteFollowByIDCall (follow.ID follow)],
                 logs := logs w @ targetMissingWarnings deleted [follow]\<rparr>"
    have rest: "\<not> allSucceed (\<lambda>follow. DeleteFollowByID db (follow.ID follow)) following (store ?w1)"
      using Cons.prems None by simp
    show ?thesis unfolding unfollowLoop_step [OF None] by (rule Cons.IH [OF rest])
  qed
qed

lemma unfollowLoop_queue:
  "queue (snd (unfollowLoop db (unfollowSideEffectsFunc deleted) deleted following msgs w)) = queue w"
proof (induction following arbitrary: msgs w)
  case Nil
  show ?case by simp
next
  case (Cons follow following)
  show ?case
  proof (cases "fst (DeleteFollowByID db (follow.ID follow) (store w))")
    case (Some e)
    show ?thesis unfolding unfollowLoop_stop [OF Some] by simp
  next
    case None
    show ?thesis unfolding unfollowLoop_step [OF None] Cons.IH by simp
  qed
qed

lemma unfollowRequestingLoop_step:
  "fst (DeleteFollowRequestByID db (followRequest.ID fr) (store w)) = None
   \<Longrightarrow> unfollowRequestingLoop db (unfollowSideEffectsFunc deleted) deleted (fr # followRequesting) msgs w =
       unfollowRequestingLoop db (unfollowSideEffectsFunc deleted) deleted followRequesting
         (msgs @ List.map_filter (undoFollowEvent deleted) [dummyFollow fr])
         (w\<lparr>store := snd (DeleteFollowRequestByID db (followRequest.ID fr) (store w)),
            calls := calls w @ [DeleteFollowRequestByIDCall (followRequest.ID fr)],
            logs := logs w @ targetMissingWarnings deleted [dummyFollow fr]\<rparr>)"
  by (cases "undoFollowEvent deleted (dummyFollow fr)")
     (simp_all add: invoke_eq unfollowSideEffectsFunc_eq logf_def targetMissingWarnings_def)

lemma unfollowRequestingLoop_stop:
  "fst (DeleteFollowRequestByID db (followRequest.ID fr) (store w)) = Some e
   \<Longrightarrow> unfollowRequestingLoop db pol deleted (fr # followRequesting) msgs w =
       ((Some (Errorf ''deleteAccountFollows: db error unfollowingRequesting account: %w'' e), msgs),
        w\<lparr>store := snd (DeleteFollowRequestByID db (followRequest.ID fr) (store w)),
           calls := calls w @ [DeleteFollowRequestByIDCall (followRequest.ID fr)]\<rparr>)"
  by (simp add: invoke_eq)

lemma unfollowRequestingLoop_ok:
  "allSucceed (\<lambda>fr. DeleteFollowRequestByID db (followRequest.ID fr)) followRequesting (store w)
   \<Longrightarrow> unfollowRequestingLoop db (unfollowSideEffectsFunc deleted) deleted followRequesting msgs w =
       ((None, msgs @ List.map_filter (undoFollowEvent deleted) (map dummyFollow followRequesting)),
        w\<lparr>store := afterDeletes (\<lambda>fr. DeleteFollowRequestByID db (followRequest.ID fr))
                      followRequesting (store w),
           calls := calls w @
             map (\<lambda>fr. DeleteFollowRequestByIDCall (followRequest.ID fr)) followRequesting,
           logs := logs w @ targetMissingWarnings deleted (map dummyFollow followRequesting)\<rparr>)"
proof (induction followRequesting arbitrary: msgs w)
  case Nil
  show ?case by (simp add: targetMissingWarnings_simps)
next
  case (Cons fr followRequesting)
  let ?w1 = "w\<lparr>store := snd (DeleteFollowRequestByID db (followRequest.ID fr) (store w)),
               calls := calls w @ [DeleteFollowRequestByIDCall (followRequest.ID fr)],
               logs := logs w @ targetMissingWarnings deleted [dummyFollow fr]\<rparr>"
  have ok: "fst (DeleteFollowRequestByID db (followRequest.ID fr) (store w)) = None"
    and rest: "allSucceed (\<lambda>fr. DeleteFollowRequestByID db (followRequest.ID fr)) followRequesting
                 (store ?w1)"
    using Cons.prems by simp_all
  have split: "targetMissingWarnings deleted (map dummyFollow (fr # followRequesting)) =
                 targetMissingWarnings deleted [dummyFollow fr] @
                 targetMissingWarnings deleted (map dummyFollow followRequesting)"
    using targetMissingWarnings_simps(3) [of deleted "[dummyFollow fr]" "map dummyFollow followRequesting"]
    by simp
  show ?case
    unfolding unfollowRequestingLoop_step [OF ok] Cons.IH [OF rest] split
    by (cases "undoFollowEvent deleted (dummyFollow fr)") simp_all
qed

lemma unfollowRequestingLoop_fail:
  "\<not> allSucceed (\<lambda>fr. DeleteFollowRequestByID db (followRequest.ID fr)) followRequesting (store w)
   \<Longrightarrow> fst (fst (unfollowRequestingLoop db (unfollowSideEffectsFunc deleted) deleted
                   followRequesting msgs w)) \<noteq> None"
proof (induction followRequesting arbitrary: msgs w)
  case Nil
  then show ?case by simp
next
  case (Cons fr followRequesting)
  show ?case
  proof (cases "fst (DeleteFollowRequestByID db (followRequest.ID fr) (store w))")
    case (Some e)
    show ?thesis unfolding unfollowRequestingLoop_stop [OF Some] by simp
  next
    case None
    let ?w1 = "w\<lparr>store := snd (DeleteFollowRequestByID db (followRequest.ID fr) (store w)),
                 calls := calls w @ [DeleteFollowRequestByIDCall (followRequest.ID fr)],
                 logs := logs w @ targetMissingWarnings deleted [dummyFollow fr]\<rparr>"
    have rest: "\<not> allSucceed (\<lambda>fr. DeleteFollowRequestByID db (followRequest.ID fr)) followRequesting
                    (store ?w1)"
      using Cons.prems None by simp
    show ?thesis unfolding unfollowRequestingLoop_step [OF None] by (rule Cons.IH [OF rest])
  qed
qed

lemma unfollowRequestingLoop_queue:
  "queue (snd (unfollowRequestingLoop db (unfollowSideEffectsFunc deleted) deleted
                 followRequesting msgs w)) = queue w"
proof (induction followRequesting arbitrary: msgs w)
  case Nil
  show ?case by simp
next
  case (Cons fr followRequesting)
  show ?case
  proof (cases "fst (DeleteFollowRequestByID db (followRequest.ID fr) (store w))")
    case (Some e)
    show ?thesis unfolding unfollowRequestingLoop_stop [OF Some] by simp
  next
    case None
    show ?thesis unfolding unfollowRequestingLoop_step [OF None] Cons.IH by simp
  qed
qed

lemma deleteOutgoing_ok:
  assumes "outgoingOK db (account.ID deleted) (store w)"
  shows "deleteOutgoing db deleted w =
     (let i = account.ID deleted;
          r3 = GetAccountFollows db i (store w);
          following = fst (fst r3);
          s3 = afterDeletes (\<lambda>follow. DeleteFollowByID db (follow.ID follow)) following (snd r3);
          r4 = GetAccountFollowRequesting db i s3;
          followRequesting = fst (fst r4);
          s4 = afterDeletes (\<lambda>fr. DeleteFollowRequestByID db (followRequest.ID fr)) followRequesting (snd r4);
          edges = following @ map dummyFollow followRequesting
      in (None,
          w\<lparr>store := s4,
            calls := calls w @
              [GetAccountFollowsCall i] @
              map (\<lambda>follow. DeleteFollowByIDCall (follow.ID follow)) following @
              [GetAccountFollowRequestingCall i] @
              map (\<lambda>fr. DeleteFollowRequestByIDCall (followRequest.ID fr)) followRequesting,
            queue := queue w @ [List.map_filter (undoFollowEvent deleted) edges],
            logs := logs w @ targetMissingWarnings deleted edges\<rparr>))"
proof -
  let ?i = "account.ID deleted"
  let ?r3 = "GetAccountFollows db ?i (store w)"
  let ?following = "fst (fst ?r3)"
  let ?w1 = "w\<lparr>store := snd ?r3, calls := calls w @ [GetAccountFollowsCall ?i]\<rparr>"
  let ?s3 = "afterDeletes (\<lambda>follow. DeleteFollowByID db (follow.ID follow)) ?following (snd ?r3)"
  let ?r4 = "GetAccountFollowRequesting db ?i ?s3"
  let ?followRequesting = "fst (fst ?r4)"
  have t3: "notNoEntries (snd (fst ?r3)) = None"
    and a3: "allSucceed (\<lambda>follow. DeleteFollowByID db (follow.ID follow)) ?following (store ?w1)"
    and t4: "notNoEntries (snd (fst ?r4)) = None"
    and a4: "allSucceed (\<lambda>fr. DeleteFollowRequestByID db (followRequest.ID fr)) ?followRequesting (snd ?r4)"
    using assms by (simp_all add: outgoingOK_def Let_def)
  note l1 = unfollowLoop_ok [OF a3, of deleted "[]"]
  let ?w2 = "?w1\<lparr>store := ?s3,
               calls := calls ?w1 @ map (\<lambda>follow. DeleteFollowByIDCall (follow.ID follow)) ?following,
               logs := logs ?w1 @ targetMissingWarnings deleted ?following\<rparr>"
  let ?w3 = "?w2\<lparr>store := snd ?r4, calls := calls ?w2 @ [GetAccountFollowRequestingCall ?i]\<rparr>"
  have a4': "allSucceed (\<lambda>fr. DeleteFollowRequestByID db (followRequest.ID fr)) ?followRequesting (store ?w3)"
    using a4 by simp
  note l2 = unfollowRequestingLoop_ok
              [OF a4', of deleted "[] @ List.map_filter (undoFollowEvent deleted) ?following"]
  show ?thesis
    unfolding deleteOutgoing_def Let_def invoke_eq
    using t3 t4 l1 l2
    by (simp add: prod.case_eq_if EnqueueClientAPI_def map_filter_append targetMissingWarnings_simps)
qed

lemma deleteOutgoing_fail:
  assumes "\<not> outgoingOK db (account.ID deleted) (store w)"
  shows "fst (deleteOutgoing db deleted w) \<noteq> None \<and> queue (snd (deleteOutgoing db deleted w)) = queue w"
proof -
  let ?i = "account.ID deleted"
  let ?r3 = "GetAccountFollows db ?i (store w)"
  let ?following = "fst (fst ?r3)"
  let ?w1 = "w\<lparr>store := snd ?r3, calls := calls w @ [GetAccountFollowsCall ?i]\<rparr>"
  let ?s3 = "afterDeletes (\<lambda>follow. DeleteFollowByID db (follow.ID follow)) ?following (snd ?r3)"
  let ?r4 = "GetAccountFollowRequesting db ?i ?s3"
  let ?followRequesting = "fst (fst ?r4)"
  show ?thesis
  proof (cases "notNoEntries (snd (fst ?r3))")
    case (Some e)
    then show ?thesis
      unfolding deleteOutgoing_def Let_def invoke_eq by (simp add: prod.case_eq_if)
  next
    case t3: None
    let ?l1 = "unfollowLoop db (unfollowSideEffectsFunc deleted) deleted ?following [] ?w1"
    show ?thesis
    proof (cases "allSucceed (\<lambda>follow. DeleteFollowByID db (follow.ID follow)) ?following (store ?w1)")
      case False
      from unfollowLoop_fail [OF False, of deleted "[]"]
      obtain e where e: "fst (fst ?l1) = Some e" by blast
      have q: "queue (snd ?l1) = queue w"
        using unfollowLoop_queue [of db deleted ?following "[]" ?w1] by simp
      show ?thesis
        unfolding deleteOutgoing_def Let_def invoke_eq
        using t3 e q by (simp add: prod.case_eq_if)
    next
      case a3: True
      note l1 = unfollowLoop_ok [OF a3, of deleted "[]"]
      let ?w2 = "?w1\<lparr>store := ?s3,
                   calls := calls ?w1 @ map (\<lambda>follow. DeleteFollowByIDCall (follow.ID follow)) ?following,
                   logs := logs ?w1 @ targetMissingWarnings deleted ?following\<rparr>"
      let ?w3 = "?w2\<lparr>store := snd ?r4, calls := calls ?w2 @ [GetAccountFollowRequestingCall ?i]\<rparr>"
      show ?thesis
      proof (cases "notNoEntries (snd (fst ?r4))")
        case (Some e)
        then show ?thesis
          unfolding deleteOutgoing_def Let_def invoke_eq
          using t3 l1 by (simp add: prod.case_eq_if)
      next
        case t4: None
        have a4: "\<not> allSucceed (\<lambda>fr. DeleteFollowRequestByID db (followRequest.ID fr))
                      ?followRequesting (store ?w3)"
          using assms t3 a3 t4 by (simp add: outgoingOK_def Let_def)
        let ?l2 = "unfollowRequestingLoop db (unfollowSideEffectsFunc deleted) deleted ?followRequesting
                     ([] @ List.map_filter (undoFollowEvent deleted) ?following) ?w3"
        from unfollowRequestingLoop_fail [OF a4, of deleted]
        obtain e where e: "fst (fst ?l2) = Some e" by blast
        have q: "queue (snd ?l2) = queue w"
          using unfollowRequestingLoop_queue [of db deleted ?followRequesting _ ?w3] by simp
        show ?thesis
          unfolding deleteOutgoing_def Let_def invoke_eq
          using t3 l1 t4 e q by (simp add: prod.case_eq_if)
      qed
    qed
  qed
qed

lemma deleteAccountFollows_incoming_ok:
  assumes "incomingOK db (account.ID deleted) (store w)"
  shows "deleteAccountFollows db deleted w =
           deleteOutgoing db deleted (afterIncoming db (account.ID deleted) w)"
proof -
  let ?i = "account.ID deleted"
  let ?r1 = "GetAccountFollowers db ?i (store w)"
  let ?followedBy = "fst (fst ?r1)"
  let ?w1 = "w\<lparr>store := snd ?r1, calls := calls w @ [GetAccountFollowersCall ?i]\<rparr>"
  let ?s1 = "afterDeletes (\<lambda>follow. DeleteFollowByID db (follow.ID follow)) ?followedBy (snd ?r1)"
  let ?r2 = "GetAccountFollowRequests db ?i ?s1"
  let ?followRequestedBy = "fst (fst ?r2)"
  have t1: "notNoEntries (snd (fst ?r1)) = None"
    and a1: "allSucceed (\<lambda>follow. DeleteFollowByID db (follow.ID follow)) ?followedBy (store ?w1)"
    and t2: "notNoEntries (snd (fst ?r2)) = None"
    and a2: "allSucceed (\<lambda>fr. DeleteFollowRequestByID db (followRequest.ID fr)) ?followRequestedBy (snd ?r2)"
    using assms by (simp_all add: incomingOK_def Let_def)
  note l1 = forEach_ok [OF a1,
      of "''deleteAccountFollows: db error unfollowing account followedBy: %w''"
         "\<lambda>follow. DeleteFollowByIDCall (follow.ID follow)"]
  let ?w2 = "?w1\<lparr>store := ?s1,
               calls := calls ?w1 @ map (\<lambda>follow. DeleteFollowByIDCall (follow.ID follow)) ?followedBy\<rparr>"
  let ?w3 = "?w2\<lparr>store := snd ?r2, calls := calls ?w2 @ [GetAccountFollowRequestsCall ?i]\<rparr>"
  have a2': "allSucceed (\<lambda>fr. DeleteFollowRequestByID db (followRequest.ID fr)) ?followRequestedBy (store ?w3)"
    using a2 by simp
  note l2 = forEach_ok [OF a2',
      of "''deleteAccountFollows: db error unfollowing account followRequestedBy: %w''"
         "\<lambda>fr. DeleteFollowRequestByIDCall (followRequest.ID fr)"]
  show ?thesis
    using t1 t2 l1 l2
    by (simp add: deleteAccountFollows_def invoke_eq afterIncoming_def Let_def prod.case_eq_if)
qed

lemma deleteAccountFollows_incoming_fail:
  assumes "\<not> incomingOK db (account.ID deleted) (store w)"
  shows "fst (deleteAccountFollows db deleted w) \<noteq> None \<and>
         queue (snd (deleteAccountFollows db deleted w)) = queue w"
proof -
  let ?i = "account.ID deleted"
  let ?r1 = "GetAccountFollowers db ?i (store w)"
  let ?followedBy = "fst (fst ?r1)"
  let ?w1 = "w\<lparr>store := snd ?r1, calls := calls w @ [GetAccountFollowersCall ?i]\<rparr>"
  let ?s1 = "afterDeletes (\<lambda>follow. DeleteFollowByID db (follow.ID follow)) ?followedBy (snd ?r1)"
  let ?r2 = "GetAccountFollowRequests db ?i ?s1"
  let ?followRequestedBy = "fst (fst ?r2)"
  let ?b1 = "\<lambda>follow w.
               wrap ''deleteAccountFollows: db error unfollowing account followedBy: %w''
                 (invoke (DeleteFollowByIDCall (follow.ID follow)) (DeleteFollowByID db (follow.ID follow)) w)"
  let ?b2 = "\<lambda>followRequest w.
               wrap ''deleteAccountFollows: db error unfollowing account followRequestedBy: %w''
                 (invoke (DeleteFollowRequestByIDCall (followRequest.ID followRequest))
                    (DeleteFollowRequestByID db (followRequest.ID followRequest)) w)"
  show ?thesis
  proof (cases "notNoEntries (snd (fst ?r1))")
    case (Some e)
    then show ?thesis
      by (simp add: deleteAccountFollows_def invoke_eq prod.case_eq_if)
  next
    case t1: None
    show ?thesis
    proof (cases "allSucceed (\<lambda>follow. DeleteFollowByID db (follow.ID follow)) ?followedBy (store ?w1)")
      case False
      from forEach_fail [OF False,
          where m = "''deleteAccountFollows: db error unfollowing account followedBy: %w''"
            and c = "\<lambda>follow. DeleteFollowByIDCall (follow.ID follow)"]
      obtain e where e: "fst (forEach ?b1 ?followedBy ?w1) = Some e"
        by blast
      have q: "queue (snd (forEach ?b1 ?followedBy ?w1)) = queue w"
        using forEach_queue [of _ "\<lambda>follow. DeleteFollowByIDCall (follow.ID follow)"
                                "\<lambda>follow. DeleteFollowByID db (follow.ID follow)" ?followedBy ?w1]
        by simp
      show ?thesis
        using t1 e q
        by (simp add: deleteAccountFollows_def invoke_eq prod.case_eq_if)
    next
      case a1: True
      note l1 = forEach_ok [OF a1,
          of "''deleteAccountFollows: db error unfollowing account followedBy: %w''"
             "\<lambda>follow. DeleteFollowByIDCall (follow.ID follow)"]
      let ?w2 = "?w1\<lparr>store := ?s1,
                   calls := calls ?w1 @ map (\<lambda>follow. DeleteFollowByIDCall (follow.ID follow)) ?followedBy\<rparr>"
      let ?w3 = "?w2\<lparr>store := snd ?r2, calls := calls ?w2 @ [GetAccountFollowRequestsCall ?i]\<rparr>"
      show ?thesis
      proof (cases "notNoEntries (snd (fst ?r2))")
        case (Some e)
        then show ?thesis
          using t1 l1
          by (simp add: deleteAccountFollows_def invoke_eq prod.case_eq_if)
      next
        case t2: None
        have a2: "\<not> allSucceed (\<lambda>fr. DeleteFollowRequestByID db (followRequest.ID fr))
                      ?followRequestedBy (store ?w3)"
          using assms t1 a1 t2 by (simp add: incomingOK_def Let_def)
        from forEach_fail [OF a2,
            where m = "''deleteAccountFollows: db error unfollowing account followRequestedBy: %w''"
              and c = "\<lambda>fr. DeleteFollowRequestByIDCall (followRequest.ID fr)"]
        obtain e where e: "fst (forEach ?b2 ?followRequestedBy ?w3) = Some e"
          by blast
        have q: "queue (snd (forEach ?b2 ?followRequestedBy ?w3)) = queue w"
          using forEach_queue [of _ "\<lambda>fr. DeleteFollowRequestByIDCall (followRequest.ID fr)"
                                  "\<lambda>fr. DeleteFollowRequestByID db (followRequest.ID fr)"
                                  ?followRequestedBy ?w3]
          by simp
        show ?thesis
          using t1 l1 t2 e q
          by (simp add: deleteAccountFollows_def invoke_eq prod.case_eq_if)
      qed
    qed
  qed
qed

lemma edgeDB_sel:
  "GetAccountFollowers edgeDB = (\<lambda>accountID s. (([], None), s))"
  "GetAccountFollowRequests edgeDB = (\<lambda>accountID s. (([], None), s))"
  "GetAccountFollows edgeDB = (\<lambda>accountID s.
          ((filter (\<lambda>follow. follow.ID follow \<in> set s)
              [exampleFollow ''f1'' (Some (exampleAccount ''02'' ''remote.example'')),
               exampleFollow ''f2'' (Some (exampleAccount ''03'' [])),
               exampleFollow ''f3'' None], None), s))"
  "GetAccountFollowRequesting edgeDB = (\<lambda>accountID s.
          ((filter (\<lambda>followRequest. followRequest.ID followRequest \<in> set s)
              [exampleFollowRequest ''r1'' (Some (exampleAccount ''04'' ''other.example''))],
            Some ErrNoEntries), s))"
  "DeleteFollowByID edgeDB = (\<lambda>id' s.
          if id' = ''f2'' \<and> ''down'' \<in> set s then (Some (ErrOther ''database is down''), s)
          else (None, removeAll id' s))"
  "DeleteFollowRequestByID edgeDB = (\<lambda>id' s. (None, removeAll id' s))"
  by (simp_all add: edgeDB_def quietDB_def)

text \<open>
  Claim C2, as stated, fails.  The local account \<open>01\<close> owns the follow \<open>f1\<close> of a remote
  account.  The step deletes the row of \<open>f1\<close>; the deletion of the next follow fails; the
  step returns that error before it reaches the one call that hands the batch to the
  workers.  The row of \<open>f1\<close> is gone from the store and no event has been emitted for it.
\<close>

theorem deleted_follow_without_event_counterexample:
  "IsLocal (exampleAccount ''01'' []) \<and>
   \<not> IsLocal (exampleAccount ''02'' ''remote.example'') \<and>
   fst (GetAccountFollows edgeDB ''01'' [''f1'', ''f2'', ''f3'', ''r1'', ''down'']) =
     ([exampleFollow ''f1'' (Some (exampleAccount ''02'' ''remote.example'')),
       exampleFollow ''f2'' (Some (exampleAccount ''03'' [])),
       exampleFollow ''f3'' None], None) \<and>
   deleteAccountFollows edgeDB (exampleAccount ''01'' [])
       (emptyWorld [''f1'', ''f2'', ''f3'', ''r1'', ''down'']) =
     (Some (Errorf ''deleteAccountFollows: db error unfollowing account: %w''
              (ErrOther ''database is down'')),
      \<lparr>store = [''f2'', ''f3'', ''r1'', ''down''], mediaCache = Map.empty,
       calls = [GetAccountFollowersCall ''01'', GetAccountFollowRequestsCall ''01'',
                GetAccountFollowsCall ''01'', DeleteFollowByIDCall ''f1'', DeleteFollowByIDCall ''f2''],
       queue = [],
       logs = []\<rparr>)"
  by (simp add: deleteAccountFollows_def deleteOutgoing_def unfollowSideEffectsFunc_def invoke_eq
        edgeDB_sel emptyWorld_def notNoEntries_def exampleAccount_sel exampleFollow_sel
        exampleFollowRequest_sel logf_def EnqueueClientAPI_def wrap_def Let_def)

text \<open>
  Claim C2, amended.  \<^verbatim>\<open>unfollowSideEffectsFunc\<close> fixes the policy for one deleted account,
  and the function that it returns gives for each outgoing edge: no event when the deleted
  account is not local; no event and one warning in the log when the deleted account is
  local and the target account of the edge is nil; no event when the target is local;
  otherwise the one event \<open>ActivityFollow\<close>/\<open>ActivityUndo\<close> with the deleted account as
  origin and the target account as target.  \<^verbatim>\<open>deleteAccountFollows\<close> returns nil exactly
  when every listing returns nil or \<open>db.ErrNoEntries\<close> and every row deletion returns nil,
  each in the state of the store that the calls before it have left.  Then it has deleted
  every listed incoming and outgoing edge, and the one batch that it has handed to the
  workers holds the events of the policy for the outgoing edges that the store listed,
  follows first, in the order of the listings.  When it returns an error it has handed
  nothing to the workers, also for the edges that it has already deleted.
\<close>

theorem unfollow_events_batched_on_success:
  "unfollowSideEffectsFunc deleted deleted follow w =
     (undoFollowEvent deleted follow,
      if IsLocal deleted \<and> follow.TargetAccount follow = None
      then logf WARN ''follow had no TargetAccount, likely race condition'' [] w
      else w) \<and>
   (\<not> IsLocal deleted \<longrightarrow> undoFollowEvent deleted follow = None) \<and>
   (IsLocal deleted \<and> follow.TargetAccount follow = None \<longrightarrow> undoFollowEvent deleted follow = None) \<and>
   (\<forall>target. IsLocal deleted \<and> follow.TargetAccount follow = Some target \<and> IsLocal target
      \<longrightarrow> undoFollowEvent deleted follow = None) \<and>
   (\<forall>target. IsLocal deleted \<and> follow.TargetAccount follow = Some target \<and> \<not> IsLocal target
      \<longrightarrow> undoFollowEvent deleted follow =
            Some \<lparr>APObjectType = ActivityFollow, APActivityType = ActivityUndo,
                  GTSModel = Some (FollowModel follow), OriginAccount = Some deleted,
                  fromClientAPI.TargetAccount = Some target\<rparr>) \<and>
   (let i = account.ID deleted;
        r1 = GetAccountFollowers db i (store w);
        followedBy = fst (fst r1);
        s1 = afterDeletes (\<lambda>follow. DeleteFollowByID db (follow.ID follow)) followedBy (snd r1);
        r2 = GetAccountFollowRequests db i s1;
        followRequestedBy = fst (fst r2);
        s2 = afterDeletes (\<lambda>fr. DeleteFollowRequestByID db (followRequest.ID fr)) followRequestedBy (snd r2);
        r3 = GetAccountFollows db i s2;
        following = fst (fst r3);
        s3 = afterDeletes (\<lambda>follow. DeleteFollowByID db (follow.ID follow)) following (snd r3);
        r4 = GetAccountFollowRequesting db i s3;
        followRequesting = fst (fst r4);
        s4 = afterDeletes (\<lambda>fr. DeleteFollowRequestByID db (followRequest.ID fr)) followRequesting (snd r4);
        edges = following @ map dummyFollow followRequesting;
        allDone =
          (notNoEntries (snd (fst r1)) = None \<and>
           allSucceed (\<lambda>follow. DeleteFollowByID db (follow.ID follow)) followedBy (snd r1) \<and>
           notNoEntries (snd (fst r2)) = None \<and>
           allSucceed (\<lambda>fr. DeleteFollowRequestByID db (followRequest.ID fr)) followRequestedBy (snd r2) \<and>
           notNoEntries (snd (fst r3)) = None \<and>
           allSucceed (\<lambda>follow. DeleteFollowByID db (follow.ID follow)) following (snd r3) \<and>
           notNoEntries (snd (fst r4)) = None \<and>
           allSucceed (\<lambda>fr. DeleteFollowRequestByID db (followRequest.ID fr)) followRequesting (snd r4))
    in (allDone \<longrightarrow>
          deleteAccountFollows db deleted w =
            (None,
             w\<lparr>store := s4,
               calls := calls w @
                 [GetAccountFollowersCall i] @
                 map (\<lambda>follow. DeleteFollowByIDCall (follow.ID follow)) followedBy @
                 [GetAccountFollowRequestsCall i] @
                 map (\<lambda>fr. DeleteFollowRequestByIDCall (followRequest.ID fr)) followRequestedBy @
                 [GetAccountFollowsCall i] @
                 map (\<lambda>follow. DeleteFollowByIDCall (follow.ID follow)) following @
                 [GetAccountFollowRequestingCall i] @
                 map (\<lambda>fr. DeleteFollowRequestByIDCall (followRequest.ID fr)) followRequesting,
               queue := queue w @ [List.map_filter (undoFollowEvent deleted) edges],
               logs := logs w @ targetMissingWarnings deleted edges\<rparr>)) \<and>
       (\<not> allDone \<longrightarrow>
          fst (deleteAccountFollows db deleted w) \<noteq> None \<and>
          queue (snd (deleteAccountFollows db deleted w)) = queue w))"
proof -
  have policy: "unfollowSideEffectsFunc deleted deleted follow w =
     (undoFollowEvent deleted follow,
      if IsLocal deleted \<and> follow.TargetAccount follow = None
      then logf WARN ''follow had no TargetAccount, likely race condition'' [] w
      else w)"
    by (rule unfollowSideEffectsFunc_eq)
  have cases: "(\<not> IsLocal deleted \<longrightarrow> undoFollowEvent deleted follow = None) \<and>
   (IsLocal deleted \<and> follow.TargetAccount follow = None \<longrightarrow> undoFollowEvent deleted follow = None) \<and>
   (\<forall>target. IsLocal deleted \<and> follow.TargetAccount follow = Some target \<and> IsLocal target
      \<longrightarrow> undoFollowEvent deleted follow = None) \<and>
   (\<forall>target. IsLocal deleted \<and> follow.TargetAccount follow = Some target \<and> \<not> IsLocal target
      \<longrightarrow> undoFollowEvent deleted follow =
            Some \<lparr>APObjectType = ActivityFollow, APActivityType = ActivityUndo,
                  GTSModel = Some (FollowModel follow), OriginAccount = Some deleted,
                  fromClientAPI.TargetAccount = Some target\<rparr>)"
    by (simp add: undoFollowEvent_def)
  let ?i = "account.ID deleted"
  let ?w' = "afterIncoming db ?i w"
  have run: "(incomingOK db ?i (store w) \<and> outgoingOK db ?i (store ?w') \<longrightarrow>
               deleteAccountFollows db deleted w = deleteOutgoing db deleted ?w') \<and>
             (\<not> (incomingOK db ?i (store w) \<and> outgoingOK db ?i (store ?w')) \<longrightarrow>
               fst (deleteAccountFollows db deleted w) \<noteq> None \<and>
               queue (snd (deleteAccountFollows db deleted w)) = queue w)"
  proof (cases "incomingOK db ?i (store w)")
    case False
    then show ?thesis using deleteAccountFollows_incoming_fail [OF False] by simp
  next
    case True
    note eq = deleteAccountFollows_incoming_ok [OF True]
    have q: "queue ?w' = queue w" by (simp add: afterIncoming_def Let_def)
    show ?thesis
    proof (cases "outgoingOK db ?i (store ?w')")
      case False
      then show ?thesis using deleteOutgoing_fail [OF False] q True by (simp add: eq)
    next
      case ok: True
      then show ?thesis using True eq by simp
    qed
  qed
  let ?r1 = "GetAccountFollowers db ?i (store w)"
  let ?followedBy = "fst (fst ?r1)"
  let ?s1 = "afterDeletes (\<lambda>follow. DeleteFollowByID db (follow.ID follow)) ?followedBy (snd ?r1)"
  let ?r2 = "GetAccountFollowRequests db ?i ?s1"
  let ?followRequestedBy = "fst (fst ?r2)"
  let ?s2 = "afterDeletes (\<lambda>fr. DeleteFollowRequestByID db (followRequest.ID fr)) ?followRequestedBy (snd ?r2)"
  let ?r3 = "GetAccountFollows db ?i ?s2"
  let ?following = "fst (fst ?r3)"
  let ?s3 = "afterDeletes (\<lambda>follow. DeleteFollowByID db (follow.ID follow)) ?following (snd ?r3)"
  let ?r4 = "GetAccountFollowRequesting db ?i ?s3"
  let ?followRequesting = "fst (fst ?r4)"
  let ?s4 = "afterDeletes (\<lambda>fr. DeleteFollowRequestByID db (followRequest.ID fr)) ?followRequesting (snd ?r4)"
  let ?edges = "?following @ map dummyFollow ?followRequesting"
  let ?allDone =
    "notNoEntries (snd (fst ?r1)) = None \<and>
     allSucceed (\<lambda>follow. DeleteFollowByID db (follow.ID follow)) ?followedBy (snd ?r1) \<and>
     notNoEntries (snd (fst ?r2)) = None \<and>
     allSucceed (\<lambda>fr. DeleteFollowRequestByID db (followRequest.ID fr)) ?followRequestedBy (snd ?r2) \<and>
     notNoEntries (snd (fst ?r3)) = None \<and>
     allSucceed (\<lambda>follow. DeleteFollowByID db (follow.ID follow)) ?following (snd ?r3) \<and>
     notNoEntries (snd (fst ?r4)) = None \<and>
     allSucceed (\<lambda>fr. DeleteFollowRequestByID db (followRequest.ID fr)) ?followRequesting (snd ?r4)"
  have st: "store ?w' = ?s2"
    by (simp add: afterIncoming_def Let_def)
  have D: "(incomingOK db ?i (store w) \<and> outgoingOK db ?i (store ?w')) = ?allDone"
    unfolding st by (simp add: incomingOK_def outgoingOK_def Let_def)
  have goalS: "?allDone \<longrightarrow>
          deleteAccountFollows db deleted w =
            (None,
             w\<lparr>store := ?s4,
               calls := calls w @
                 [GetAccountFollowersCall ?i] @
                 map (\<lambda>follow. DeleteFollowByIDCall (follow.ID follow)) ?followedBy @
                 [GetAccountFollowRequestsCall ?i] @
                 map (\<lambda>fr. DeleteFollowRequestByIDCall (followRequest.ID fr)) ?followRequestedBy @
                 [GetAccountFollowsCall ?i] @
                 map (\<lambda>follow. DeleteFollowByIDCall (follow.ID follow)) ?following @
                 [GetAccountFollowRequestingCall ?i] @
                 map (\<lambda>fr. DeleteFollowRequestByIDCall (followRequest.ID fr)) ?followRequesting,
               queue := queue w @ [List.map_filter (undoFollowEvent deleted) ?edges],
               logs := logs w @ targetMissingWarnings deleted ?edges\<rparr>)"
  proof
    assume "?allDone"
    then have both: "incomingOK db ?i (store w) \<and> outgoingOK db ?i (store ?w')"
      using D by blast
    then have eq: "deleteAccountFollows db deleted w = deleteOutgoing db deleted ?w'"
      using run by blast
    from both have ok: "outgoingOK db ?i (store ?w')" by blast
    have fr: "calls ?w' = calls w @
                 [GetAccountFollowersCall ?i] @
                 map (\<lambda>follow. DeleteFollowByIDCall (follow.ID follow)) ?followedBy @
                 [GetAccountFollowRequestsCall ?i] @
                 map (\<lambda>fr. DeleteFollowRequestByIDCall (followRequest.ID fr)) ?followRequestedBy"
      "queue ?w' = queue w" "logs ?w' = logs w"
      by (simp_all add: afterIncoming_def Let_def)
    have upd: "?w' = w\<lparr>store := ?s2, calls := calls ?w'\<rparr>"
      by (simp add: afterIncoming_def Let_def)
    show "deleteAccountFollows db deleted w =
            (None,
             w\<lparr>store := ?s4,
               calls := calls w @
                 [GetAccountFollowersCall ?i] @
                 map (\<lambda>follow. DeleteFollowByIDCall (follow.ID follow)) ?followedBy @
                 [GetAccountFollowRequestsCall ?i] @
                 map (\<lambda>fr. DeleteFollowRequestByIDCall (followRequest.ID fr)) ?followRequestedBy @
                 [GetAccountFollowsCall ?i] @
                 map (\<lambda>follow. DeleteFollowByIDCall (follow.ID follow)) ?following @
                 [GetAccountFollowRequestingCall ?i] @
                 map (\<lambda>fr. DeleteFollowRequestByIDCall (followRequest.ID fr)) ?followRequesting,
               queue := queue w @ [List.map_filter (undoFollowEvent deleted) ?edges],
               logs := logs w @ targetMissingWarnings deleted ?edges\<rparr>)"
      unfolding eq deleteOutgoing_ok [OF ok] Let_def st fr
      by (subst upd) (simp add: fr)
  qed
  have goalF: "\<not> ?allDone \<longrightarrow>
          fst (deleteAccountFollows db deleted w) \<noteq> None \<and>
          queue (snd (deleteAccountFollows db deleted w)) = queue w"
    using run D by blast
  have main: "(let i = account.ID deleted;
        r1 = GetAccountFollowers db i (store w);
        followedBy = fst (fst r1);
        s1 = afterDeletes (\<lambda>follow. DeleteFollowByID db (follow.ID follow)) followedBy (snd r1);
        r2 = GetAccountFollowRequests db i s1;
        followRequestedBy = fst (fst r2);
        s2 = afterDeletes (\<lambda>fr. DeleteFollowRequestByID db (followRequest.ID fr)) followRequestedBy (snd r2);
        r3 = GetAccountFollows db i s2;
        following = fst (fst r3);
        s3 = afterDeletes (\<lambda>follow. DeleteFollowByID db (follow.ID follow)) following (snd r3);
        r4 = GetAccountFollowRequesting db i s3;
        followRequesting = fst (fst r4);
        s4 = afterDeletes (\<lambda>fr. DeleteFollowRequestByID db (followRequest.ID fr)) followRequesting (snd r4);
        edges = following @ map dummyFollow followRequesting;
        allDone =
          (notNoEntries (snd (fst r1)) = None \<and>
           allSucceed (\<lambda>follow. DeleteFollowByID db (follow.ID follow)) followedBy (snd r1) \<and>
           notNoEntries (snd (fst r2)) = None \<and>
           allSucceed (\<lambda>fr. DeleteFollowRequestByID db (followRequest.ID fr)) followRequestedBy (snd r2) \<and>
           notNoEntries (snd (fst r3)) = None \<and>
           allSucceed (\<lambda>follow. DeleteFollowByID db (follow.ID follow)) following (snd r3) \<and>
           notNoEntries (snd (fst r4)) = None \<and>
           allSucceed (\<lambda>fr. DeleteFollowRequestByID db (followRequest.ID fr)) followRequesting (snd r4))
    in (allDone \<longrightarrow>
          deleteAccountFollows db deleted w =
            (None,
             w\<lparr>store := s4,
               calls := calls w @
                 [GetAccountFollowersCall i] @
                 map (\<lambda>follow. DeleteFollowByIDCall (follow.ID follow)) followedBy @
                 [GetAccountFollowRequestsCall i] @
                 map (\<lambda>fr. DeleteFollowRequestByIDCall (followRequest.ID fr)) followRequestedBy @
                 [GetAccountFollowsCall i] @
                 map (\<lambda>follow. DeleteFollowByIDCall (follow.ID follow)) following @
                 [GetAccountFollowRequestingCall i] @
                 map (\<lambda>fr. DeleteFollowRequestByIDCall (followRequest.ID fr)) followRequesting,
               queue := queue w @ [List.map_filter (undoFollowEvent deleted) edges],
               logs := logs w @ targetMissingWarnings deleted edges\<rparr>)) \<and>
       (\<not> allDone \<longrightarrow>
          fst (deleteAccountFollows db deleted w) \<noteq> None \<and>
          queue (snd (deleteAccountFollows db deleted w)) = queue w))"
    unfolding Let_def by (intro conjI goalS goalF)
  show ?thesis using policy cases main by blast
qed

theorem unfollow_events_batched_on_success_witness:
  "IsLocal (exampleAccount ''01'' []) \<and>
   \<not> IsLocal (exampleAccount ''02'' ''remote.example'') \<and>
   undoFollowEvent (exampleAccount ''01'' [])
       (exampleFollow ''f1'' (Some (exampleAccount ''02'' ''remote.example''))) =
     Some \<lparr>APObjectType = ActivityFollow, APActivityType = ActivityUndo,
           GTSModel = Some (FollowModel
             (exampleFollow ''f1'' (Some (exampleAccount ''02'' ''remote.example'')))),
           OriginAccount = Some (exampleAccount ''01'' []),
           fromClientAPI.TargetAccount = Some (exampleAccount ''02'' ''remote.example'')\<rparr> \<and>
   deleteAccountFollows edgeDB (exampleAccount ''01'' []) (emptyWorld [''f1'', ''f2'', ''f3'', ''r1'']) =
     (None,
      \<lparr>store = [], mediaCache = Map.empty,
       calls = [GetAccountFollowersCall ''01'', GetAccountFollowRequestsCall ''01'',
                GetAccountFollowsCall ''01'', DeleteFollowByIDCall ''f1'', DeleteFollowByIDCall ''f2'',
                DeleteFollowByIDCall ''f3'', GetAccountFollowRequestingCall ''01'',
                DeleteFollowRequestByIDCall ''r1''],
       queue = [[\<lparr>APObjectType = ActivityFollow, APActivityType = ActivityUndo,
                  GTSModel = Some (FollowModel
                    (exampleFollow ''f1'' (Some (exampleAccount ''02'' ''remote.example'')))),
                  OriginAccount = Some (exampleAccount ''01'' []),
                  fromClientAPI.TargetAccount = Some (exampleAccount ''02'' ''remote.example'')\<rparr>,
                 \<lparr>APObjectType = ActivityFollow, APActivityType = ActivityUndo,
                  GTSModel = Some (FollowModel
                    (dummyFollow (exampleFollowRequest ''r1'' (Some (exampleAccount ''04'' ''other.example''))))),
                  OriginAccount = Some (exampleAccount ''01'' []),
                  fromClientAPI.TargetAccount = Some (exampleAccount ''04'' ''other.example'')\<rparr>]],
       logs = [Log WARN ''follow had no TargetAccount, likely race condition'' []]\<rparr>)"
  using unfollow_events_batched_on_success
          [of "exampleAccount ''01'' []"
              "exampleFollow ''f1'' (Some (exampleAccount ''02'' ''remote.example''))"
              "emptyWorld [''f1'', ''f2'', ''f3'', ''r1'']" edgeDB]
  by (simp add: edgeDB_sel emptyWorld_def notNoEntries_def exampleAccount_sel exampleFollow_sel
        exampleFollowRequest_sel targetMissingWarnings_def undoFollowEvent_def Let_def)

section \<open>Properties of the user step\<close>

lemma stubbifyUser_fail_iff:
  "isl (snd (stubbifyUser e user)) \<longleftrightarrow>
     isl (NewUUID e) \<or> (\<exists>uuid. NewUUID e = Inr uuid \<and> isl (GenerateFromPassword e uuid DefaultCost))"
  by (auto simp add: stubbifyUser_def split: sum.splits)

lemma deleteUserAndTokens_at_stub:
  assumes "fst (GetUserByAccountID db (account.ID account) (store w)) = Inr user"
    and "snd (fst (GetWhere db [(''user_id'', user.ID user)]
                 (snd (GetUserByAccountID db (account.ID account) (store w))))) = None"
    and "fst (forEach (deleteToken db)
               (fst (fst (invoke (GetWhereCall [(''user_id'', user.ID user)] Tokens)
                            (GetWhere db [(''user_id'', user.ID user)])
                            (snd (invoke (GetUserByAccountIDCall (account.ID account))
                                    (GetUserByAccountID db (account.ID account)) w)))))
               (snd (invoke (GetWhereCall [(''user_id'', user.ID user)] Tokens)
                       (GetWhere db [(''user_id'', user.ID user)])
                       (snd (invoke (GetUserByAccountIDCall (account.ID account))
                               (GetUserByAccountID db (account.ID account)) w))))) = None"
  shows "deleteUserAndTokensForAccount db e account w =
     (let w3 = snd (forEach (deleteToken db)
               (fst (fst (invoke (GetWhereCall [(''user_id'', user.ID user)] Tokens)
                            (GetWhere db [(''user_id'', user.ID user)])
                            (snd (invoke (GetUserByAccountIDCall (account.ID account))
                                    (GetUserByAccountID db (account.ID account)) w)))))
               (snd (invoke (GetWhereCall [(''user_id'', user.ID user)] Tokens)
                       (GetWhere db [(''user_id'', user.ID user)])
                       (snd (invoke (GetUserByAccountIDCall (account.ID account))
                               (GetUserByAccountID db (account.ID account)) w)))))
      in case stubbifyUser e user of
           (user', Inl err) \<Rightarrow>
             (Some (Errorf ''deleteUserAndTokensForAccount: error stubbifying user: %w'' err), w3)
         | (user', Inr columns) \<Rightarrow>
             wrap ''deleteUserAndTokensForAccount: db error updating user: %w''
               (invoke (UpdateUserCall user' columns) (UpdateUser db user' columns) w3))"
  using assms
  by (simp add: deleteUserAndTokensForAccount_def invoke_eq Let_def prod.case_eq_if
           split: sum.splits option.splits)

lemma userDB_sel:
  "GetUserByAccountID userDB = (\<lambda>accountID s. (Inr (exampleUser\<lparr>EncryptedPassword := s\<rparr>), s))"
  "GetWhere userDB = (\<lambda>where' s. (([\<lparr>token.ID = ''t1'', ClientID = ''c1''\<rparr>], None), s))"
  "DeleteByID userDB = (\<lambda>id' t s. (None, s))"
  "DeleteWhere userDB = (\<lambda>where' t s. (None, s))"
  "UpdateUser userDB = (\<lambda>user columns s.
          if ''encrypted_password'' \<in> set columns then (None, EncryptedPassword user) else (None, s))"
  by (simp_all add: userDB_def quietDB_def)

lemma exampleUser_sel:
  "user.ID exampleUser = ''u1''"
  "EncryptedPassword exampleUser = ''oldhash''"
  "exampleUser\<lparr>EncryptedPassword := ''oldhash''\<rparr> = exampleUser"
  by (simp_all add: exampleUser_def)

text \<open>
  Claim C5, as stated, fails.  When the hash of the random value cannot be made,
  \<^verbatim>\<open>stubbifyUser\<close> returns the error and the user as it was, the old password hash
  included; \<^verbatim>\<open>Delete\<close> then returns an internal error after it has deleted the tokens,
  and the hash in the store is still the old one.
\<close>

theorem stubbifyUser_failure_keeps_hash_counterexample:
  "stubbifyUser failingEnv exampleUser = (exampleUser, Inl (ErrOther ''crypto/rand: unavailable'')) \<and>
   EncryptedPassword (fst (stubbifyUser failingEnv exampleUser)) = ''oldhash'' \<and>
   IsLocal (exampleAccount ''01'' []) \<and>
   Delete 1 userDB failingEnv (exampleAccount ''01'' []) ''01'' (emptyWorld ''oldhash'') =
     Some (Some (ErrorInternalError
                   (Errorf ''deleteUserAndTokensForAccount: error stubbifying user: %w''
                      (ErrOther ''crypto/rand: unavailable''))),
           \<lparr>store = ''oldhash'', mediaCache = Map.empty,
            calls = [GetUserByAccountIDCall ''01'', GetWhereCall [(''user_id'', ''u1'')] Tokens,
                     DeleteByIDCall ''c1'' Clients, DeleteWhereCall [(''client_id'', ''c1'')] Applications,
                     DeleteByIDCall ''t1'' Tokens],
            queue = [],
            logs = [Log TRACE ''beginning account delete process'' []]\<rparr>)"
proof -
  have s: "stubbifyUser failingEnv exampleUser = (exampleUser, Inl (ErrOther ''crypto/rand: unavailable''))"
    by (simp add: stubbifyUser_def failingEnv_def)
  have d: "Delete 1 userDB failingEnv (exampleAccount ''01'' []) ''01'' (emptyWorld ''oldhash'') =
     Some (Some (ErrorInternalError
                   (Errorf ''deleteUserAndTokensForAccount: error stubbifying user: %w''
                      (ErrOther ''crypto/rand: unavailable''))),
           \<lparr>store = ''oldhash'', mediaCache = Map.empty,
            calls = [GetUserByAccountIDCall ''01'', GetWhereCall [(''user_id'', ''u1'')] Tokens,
                     DeleteByIDCall ''c1'' Clients, DeleteWhereCall [(''client_id'', ''c1'')] Applications,
                     DeleteByIDCall ''t1'' Tokens],
            queue = [],
            logs = [Log TRACE ''beginning account delete process'' []]\<rparr>)"
    by (simp add: Delete_def deleteUserAndTokensForAccount_def deleteToken_def invoke_eq userDB_sel
          exampleUser_sel s exampleAccount_sel emptyWorld_def logf_def Let_def)
  show ?thesis
    using s d by (simp add: exampleUser_sel exampleAccount_sel)
qed

text \<open>
  Claim C5, amended.  When the random value and its hash can be made, \<^verbatim>\<open>stubbifyUser\<close>
  writes the hash of the random value over the password hash, whatever it was, and
  returns columns that name \<open>encrypted_password\<close>.  It returns an error exactly when the
  random value or its hash cannot be made, and then the user is as it was.  In \<^verbatim>\<open>Delete\<close>
  of a local account whose user is found and whose tokens are listed and deleted: when
  \<^verbatim>\<open>stubbifyUser\<close> fails, \<^verbatim>\<open>Delete\<close> returns the internal error that wraps its error, in
  the state that the deletion of the tokens has left, so the user in the store is not
  updated and no later step runs; when it succeeds, the update of the store receives the
  user with the new hash and the returned columns.
\<close>

theorem stubbifyUser_replaces_hash_on_success:
  "(case NewUUID e of
      Inl err \<Rightarrow> stubbifyUser e user = (user, Inl err)
    | Inr uuid \<Rightarrow>
        (case GenerateFromPassword e uuid DefaultCost of
           Inl err \<Rightarrow> stubbifyUser e user = (user, Inl err)
         | Inr dummyPassword \<Rightarrow>
             EncryptedPassword (fst (stubbifyUser e user)) = dummyPassword \<and>
             (\<exists>columns. snd (stubbifyUser e user) = Inr columns \<and>
                        ''encrypted_password'' \<in> set columns))) \<and>
   (isl (snd (stubbifyUser e user)) \<longleftrightarrow>
      isl (NewUUID e) \<or>
      (\<exists>uuid. NewUUID e = Inr uuid \<and> isl (GenerateFromPassword e uuid DefaultCost))) \<and>
   (isl (snd (stubbifyUser e user)) \<longrightarrow> fst (stubbifyUser e user) = user) \<and>
   (let i = account.ID account;
        w = logf TRACE ''beginning account delete process'' [] w0;
        r1 = invoke (GetUserByAccountIDCall i) (GetUserByAccountID db i) w;
        found = projr (fst r1);
        r2 = invoke (GetWhereCall [(''user_id'', user.ID found)] Tokens)
               (GetWhere db [(''user_id'', user.ID found)]) (snd r1);
        r3 = forEach (deleteToken db) (fst (fst r2)) (snd r2);
        w3 = snd r3;
        stub = stubbifyUser e found
    in IsLocal account \<and> \<not> isl (fst r1) \<and> snd (fst r2) = None \<and> fst r3 = None \<longrightarrow>
         (case snd stub of
            Inl err \<Rightarrow>
              Delete fuel db e account origin w0 =
                Some (Some (ErrorInternalError
                              (Errorf ''deleteUserAndTokensForAccount: error stubbifying user: %w'' err)),
                      w3)
          | Inr columns \<Rightarrow>
              deleteUserAndTokensForAccount db e account w =
                (map_option (Errorf ''deleteUserAndTokensForAccount: db error updating user: %w'')
                   (fst (UpdateUser db (fst stub) columns (store w3))),
                 w3\<lparr>store := snd (UpdateUser db (fst stub) columns (store w3)),
                    calls := calls w3 @ [UpdateUserCall (fst stub) columns]\<rparr>)))"
proof -
  have a: "(case NewUUID e of
      Inl err \<Rightarrow> stubbifyUser e user = (user, Inl err)
    | Inr uuid \<Rightarrow>
        (case GenerateFromPassword e uuid DefaultCost of
           Inl err \<Rightarrow> stubbifyUser e user = (user, Inl err)
         | Inr dummyPassword \<Rightarrow>
             EncryptedPassword (fst (stubbifyUser e user)) = dummyPassword \<and>
             (\<exists>columns. snd (stubbifyUser e user) = Inr columns \<and>
                        ''encrypted_password'' \<in> set columns)))"
    by (simp add: stubbifyUser_def split: sum.splits)
  have b: "isl (snd (stubbifyUser e user)) \<longrightarrow> fst (stubbifyUser e user) = user"
    by (simp add: stubbifyUser_def split: sum.splits)
  let ?i = "account.ID account"
  let ?w = "logf TRACE ''beginning account delete process'' [] w0"
  let ?r1 = "invoke (GetUserByAccountIDCall ?i) (GetUserByAccountID db ?i) ?w"
  let ?found = "projr (fst ?r1)"
  let ?r2 = "invoke (GetWhereCall [(''user_id'', user.ID ?found)] Tokens)
               (GetWhere db [(''user_id'', user.ID ?found)]) (snd ?r1)"
  let ?r3 = "forEach (deleteToken db) (fst (fst ?r2)) (snd ?r2)"
  let ?stub = "stubbifyUser e ?found"
  have c: "IsLocal account \<and> \<not> isl (fst ?r1) \<and> snd (fst ?r2) = None \<and> fst ?r3 = None \<longrightarrow>
         (case snd ?stub of
            Inl err \<Rightarrow>
              Delete fuel db e account origin w0 =
                Some (Some (ErrorInternalError
                              (Errorf ''deleteUserAndTokensForAccount: error stubbifying user: %w'' err)),
                      snd ?r3)
          | Inr columns \<Rightarrow>
              deleteUserAndTokensForAccount db e account ?w =
                (map_option (Errorf ''deleteUserAndTokensForAccount: db error updating user: %w'')
                   (fst (UpdateUser db (fst ?stub) columns (store (snd ?r3)))),
                 (snd ?r3)\<lparr>store := snd (UpdateUser db (fst ?stub) columns (store (snd ?r3))),
                    calls := calls (snd ?r3) @ [UpdateUserCall (fst ?stub) columns]\<rparr>))"
  proof
    assume h: "IsLocal account \<and> \<not> isl (fst ?r1) \<and> snd (fst ?r2) = None \<and> fst ?r3 = None"
    then have u: "fst (GetUserByAccountID db ?i (store ?w)) = Inr ?found"
      by (simp add: invoke_eq)
    have t: "snd (fst (GetWhere db [(''user_id'', user.ID ?found)]
                 (snd (GetUserByAccountID db ?i (store ?w))))) = None"
      using h by (simp add: invoke_eq)
    have d: "fst ?r3 = None" using h by blast
    note eq = deleteUserAndTokens_at_stub [OF u t d, of e]
    show "case snd ?stub of
            Inl err \<Rightarrow>
              Delete fuel db e account origin w0 =
                Some (Some (ErrorInternalError
                              (Errorf ''deleteUserAndTokensForAccount: error stubbifying user: %w'' err)),
                      snd ?r3)
          | Inr columns \<Rightarrow>
              deleteUserAndTokensForAccount db e account ?w =
                (map_option (Errorf ''deleteUserAndTokensForAccount: db error updating user: %w'')
                   (fst (UpdateUser db (fst ?stub) columns (store (snd ?r3)))),
                 (snd ?r3)\<lparr>store := snd (UpdateUser db (fst ?stub) columns (store (snd ?r3))),
                    calls := calls (snd ?r3) @ [UpdateUserCall (fst ?stub) columns]\<rparr>)"
    proof (cases "snd ?stub")
      case (Inl err)
      then have "deleteUserAndTokensForAccount db e account ?w =
                   (Some (Errorf ''deleteUserAndTokensForAccount: error stubbifying user: %w'' err), snd ?r3)"
        unfolding eq by (simp add: Let_def prod.case_eq_if)
      then show ?thesis
        using h Inl by (simp add: Delete_def Let_def)
    next
      case (Inr columns)
      then show ?thesis
        unfolding eq by (simp add: Let_def prod.case_eq_if wrap_def invoke_eq)
    qed
  qed
  show ?thesis
    unfolding Let_def using a b c stubbifyUser_fail_iff [of e user] by blast
qed

theorem stubbifyUser_replaces_hash_on_success_witness:
  "IsLocal (exampleAccount ''01'' []) \<and>
   EncryptedPassword (fst (stubbifyUser exampleEnv exampleUser)) = ''$2a$0123456789abcdef'' \<and>
   fst (deleteUserAndTokensForAccount userDB exampleEnv (exampleAccount ''01'' [])
          (logf TRACE ''beginning account delete process'' [] (emptyWorld ''oldhash''))) = None \<and>
   store (snd (deleteUserAndTokensForAccount userDB exampleEnv (exampleAccount ''01'' [])
                 (logf TRACE ''beginning account delete process'' [] (emptyWorld ''oldhash''))))
     = ''$2a$0123456789abcdef''"
proof -
  have s: "EncryptedPassword (fst (stubbifyUser exampleEnv exampleUser)) = ''$2a$0123456789abcdef''"
    "\<exists>columns. snd (stubbifyUser exampleEnv exampleUser) = Inr columns \<and>
               ''encrypted_password'' \<in> set columns"
    using stubbifyUser_replaces_hash_on_success
            [of exampleEnv exampleUser "exampleAccount ''01'' []" "emptyWorld ''oldhash''" userDB 1 "''01''"]
    by (simp_all add: exampleEnv_def DefaultCost_def)
  then obtain columns where c: "snd (stubbifyUser exampleEnv exampleUser) = Inr columns"
    "''encrypted_password'' \<in> set columns" by blast
  show ?thesis
    using stubbifyUser_replaces_hash_on_success
            [of exampleEnv exampleUser "exampleAccount ''01'' []" "emptyWorld ''oldhash''" userDB 1 "''01''"]
          s(1) c
    by (simp add: Let_def invoke_eq userDB_sel exampleUser_sel exampleAccount_sel emptyWorld_def
          logf_def deleteToken_def)
qed

section \<open>Properties of the status step\<close>

lemma pagedStore_account:
  assumes "pagedStore db accountID rows boostsOf accountOf"
  shows "case accountOf i of
           Some a \<Rightarrow> fst (GetAccountByID db i s) = Inr a
         | None \<Rightarrow> (\<exists>e. fst (GetAccountByID db i s) = Inl e \<and> errors_Is e ErrNoEntries)"
proof -
  from assms have
    "\<forall>id' s. case accountOf id' of
                Some a \<Rightarrow> fst (GetAccountByID db id' s) = Inr a
              | None \<Rightarrow> (\<exists>e. fst (GetAccountByID db id' s) = Inl e \<and> errors_Is e ErrNoEntries)"
    unfolding pagedStore_def by (elim conjE)
  then show ?thesis by (elim allE)
qed

lemma pagedStore_account_found:
  "pagedStore db accountID rows boostsOf accountOf \<Longrightarrow> accountOf i = Some a
   \<Longrightarrow> fst (GetAccountByID db i s) = Inr a"
  using pagedStore_account [of db accountID rows boostsOf accountOf i s] by simp

lemma pagedStore_account_missing:
  "pagedStore db accountID rows boostsOf accountOf \<Longrightarrow> accountOf i = None
   \<Longrightarrow> \<exists>e. fst (GetAccountByID db i s) = Inl e \<and> errors_Is e ErrNoEntries"
  using pagedStore_account [of db accountID rows boostsOf accountOf i s] by simp

lemma pagedStore_reblogs:
  assumes "pagedStore db accountID rows boostsOf accountOf"
  shows "\<exists>e. fst (GetStatusReblogs db status s) = (boostsOf status, e) \<and> notNoEntries e = None"
proof -
  from assms have
    "\<forall>status s. \<exists>e. fst (GetStatusReblogs db status s) = (boostsOf status, e) \<and> notNoEntries e = None"
    unfolding pagedStore_def by (elim conjE)
  then show ?thesis by (elim allE)
qed

lemma pagedStore_page:
  assumes "pagedStore db accountID rows boostsOf accountOf" and "0 < limit"
  shows "\<exists>e. fst (GetAccountStatuses db accountID limit False False maxID [] False False s) =
             (take limit (rowsAfter maxID rows), e) \<and> notNoEntries e = None"
proof -
  from assms(1) have
    "\<forall>limit maxID s. 0 < limit \<longrightarrow>
        (\<exists>e. fst (GetAccountStatuses db accountID limit False False maxID [] False False s) =
               (take limit (rowsAfter maxID rows), e) \<and> notNoEntries e = None)"
    unfolding pagedStore_def by (elim conjE)
  then have "0 < limit \<longrightarrow>
        (\<exists>e. fst (GetAccountStatuses db accountID limit False False maxID [] False False s) =
               (take limit (rowsAfter maxID rows), e) \<and> notNoEntries e = None)"
    by (elim allE)
  with assms(2) show ?thesis by (rule mp [rotated])
qed

lemma boostsLoop_attached:
  "status.Account boost = Some boostAcc
   \<Longrightarrow> boostsLoop db account status (boost # boosts) msgs w =
       boostsLoop db account status boosts (msgs @ [announceEvent account status boostAcc]) w"
  by (simp add: announceEvent_def)

lemma boostsLoop_found:
  "status.Account boost = None
   \<Longrightarrow> fst (GetAccountByID db (status.AccountID boost) (store w)) = Inr boostAcc
   \<Longrightarrow> boostsLoop db account status (boost # boosts) msgs w =
       boostsLoop db account status boosts (msgs @ [announceEvent account status boostAcc])
         (snd (invoke (GetAccountByIDCall (status.AccountID boost))
                 (GetAccountByID db (status.AccountID boost)) w))"
  by (simp add: announceEvent_def invoke_eq)

lemma boostsLoop_missing:
  "status.Account boost = None
   \<Longrightarrow> fst (GetAccountByID db (status.AccountID boost) (store w)) = Inl e
   \<Longrightarrow> errors_Is e ErrNoEntries
   \<Longrightarrow> boostsLoop db account status (boost # boosts) msgs w =
       boostsLoop db account status boosts msgs
         (logf WARN ''no account found with id %s for boost %s''
            [status.AccountID boost, status.ID boost]
            (snd (invoke (GetAccountByIDCall (status.AccountID boost))
                    (GetAccountByID db (status.AccountID boost)) w)))"
  by (simp add: invoke_eq)

lemma isPageCall_simps:
  "\<not> isPageCall (GetAccountByIDCall i)"
  "\<not> isPageCall (GetStatusReblogsCall st)"
  "isPageCall (GetAccountStatusesCall a l b1 b2 m1 m2 b3 b4)"
  by (simp_all add: isPageCall_def)

lemma boostsLoop_events:
  assumes "pagedStore db accountID rows boostsOf accountOf"
  shows "\<exists>w'. boostsLoop db account status boosts msgs w =
                 ((None, msgs @ map (announceEvent account status)
                                  (List.map_filter (resolveBooster accountOf) boosts)), w') \<and>
              queue w' = queue w \<and>
              logs w' = logs w @ boostWarnings accountOf boosts \<and>
              filter isPageCall (calls w') = filter isPageCall (calls w)"
proof (induction boosts arbitrary: msgs w)
  case Nil
  show ?case by (simp add: boostWarnings_def)
next
  case (Cons boost boosts)
  show ?case
  proof (cases "status.Account boost")
    case (Some boostAcc)
    have r: "resolveBooster accountOf boost = Some boostAcc"
      using Some by (simp add: resolveBooster_def)
    from Cons.IH [of "msgs @ [announceEvent account status boostAcc]" w]
    show ?thesis
      unfolding boostsLoop_attached [OF Some] by (simp add: r boostWarnings_def)
  next
    case None
    let ?w1 = "snd (invoke (GetAccountByIDCall (status.AccountID boost))
                      (GetAccountByID db (status.AccountID boost)) w)"
    have fr: "queue ?w1 = queue w" "filter isPageCall (calls ?w1) = filter isPageCall (calls w)"
      "logs ?w1 = logs w"
      by (simp_all add: invoke_eq isPageCall_simps)
    show ?thesis
    proof (cases "accountOf (status.AccountID boost)")
      case (Some boostAcc)
      have r: "resolveBooster accountOf boost = Some boostAcc"
        using None Some by (simp add: resolveBooster_def)
      note got = pagedStore_account_found [OF assms Some, of "store w"]
      from Cons.IH [of "msgs @ [announceEvent account status boostAcc]" ?w1]
      show ?thesis
        unfolding boostsLoop_found [OF None got] by (simp add: r fr boostWarnings_def)
    next
      case None': None
      have r: "resolveBooster accountOf boost = None"
        using None None' by (simp add: resolveBooster_def)
      from pagedStore_account_missing [OF assms None', of "store w"]
      obtain e where miss: "fst (GetAccountByID db (status.AccountID boost) (store w)) = Inl e"
        "errors_Is e ErrNoEntries" by blast
      let ?w2 = "logf WARN ''no account found with id %s for boost %s''
                   [status.AccountID boost, status.ID boost] ?w1"
      have fr2: "queue ?w2 = queue w" "filter isPageCall (calls ?w2) = filter isPageCall (calls w)"
        "logs ?w2 = logs w @ [Log WARN ''no account found with id %s for boost %s''
                               [status.AccountID boost, status.ID boost]]"
        using fr by (simp_all add: logf_def)
      from Cons.IH [of msgs ?w2]
      show ?thesis
        unfolding boostsLoop_missing [OF None miss] by (simp add: r fr2 boostWarnings_def)
    qed
  qed
qed

lemma statusesLoop_step:
  assumes "fst (GetStatusReblogs db (status0\<lparr>status.Account := Some account\<rparr>) (store w)) = (boosts, e)"
    and "notNoEntries e = None"
    and "boostsLoop db account (status0\<lparr>status.Account := Some account\<rparr>) boosts
           (msgs @ [noteEvent account (status0\<lparr>status.Account := Some account\<rparr>)])
           (snd (invoke (GetStatusReblogsCall (status0\<lparr>status.Account := Some account\<rparr>))
                   (GetStatusReblogs db (status0\<lparr>status.Account := Some account\<rparr>)) w))
         = ((None, msgs2), w2)"
  shows "statusesLoop db account (status0 # statuses) msgs w = statusesLoop db account statuses msgs2 w2"
  using assms by (simp add: Let_def invoke_eq noteEvent_def)

lemma statusesLoop_events:
  assumes "pagedStore db accountID rows boostsOf accountOf"
  shows "\<exists>w'. statusesLoop db account page msgs w =
                 ((None, msgs @ concat (map (statusEvents account boostsOf accountOf) page)), w') \<and>
              queue w' = queue w \<and>
              logs w' = logs w @ concat (map (statusWarnings account boostsOf accountOf) page) \<and>
              filter isPageCall (calls w') = filter isPageCall (calls w)"
proof (induction page arbitrary: msgs w)
  case Nil
  show ?case by simp
next
  case (Cons status0 page)
  let ?status = "status0\<lparr>status.Account := Some account\<rparr>"
  let ?w1 = "snd (invoke (GetStatusReblogsCall ?status) (GetStatusReblogs db ?status) w)"
  have fr: "queue ?w1 = queue w" "filter isPageCall (calls ?w1) = filter isPageCall (calls w)"
    "logs ?w1 = logs w"
    by (simp_all add: invoke_eq isPageCall_simps)
  from pagedStore_reblogs [OF assms, of ?status "store w"]
  obtain e where l: "fst (GetStatusReblogs db ?status (store w)) = (boostsOf ?status, e)"
    and t: "notNoEntries e = None" by blast
  let ?msgs2 = "(msgs @ [noteEvent account ?status]) @
                  map (announceEvent account ?status)
                    (List.map_filter (resolveBooster accountOf) (boostsOf ?status))"
  from boostsLoop_events [OF assms, of account ?status "boostsOf ?status" "msgs @ [noteEvent account ?status]" ?w1]
  obtain w2 where b: "boostsLoop db account ?status (boostsOf ?status) (msgs @ [noteEvent account ?status]) ?w1
                        = ((None, ?msgs2), w2)"
    and fr2: "queue w2 = queue ?w1" "filter isPageCall (calls w2) = filter isPageCall (calls ?w1)"
      "logs w2 = logs ?w1 @ boostWarnings accountOf (boostsOf ?status)"
    by blast
  have ev: "?msgs2 = msgs @ statusEvents account boostsOf accountOf status0"
    by (simp add: statusEvents_def Let_def)
  from Cons.IH [of ?msgs2 w2] obtain w' where
    r: "statusesLoop db account page ?msgs2 w2 =
          ((None, ?msgs2 @ concat (map (statusEvents account boostsOf accountOf) page)), w')"
    and fr3: "queue w' = queue w2" "filter isPageCall (calls w') = filter isPageCall (calls w2)"
      "logs w' = logs w2 @ concat (map (statusWarnings account boostsOf accountOf) page)"
    by blast
  have run: "statusesLoop db account (status0 # page) msgs w =
          ((None, msgs @ concat (map (statusEvents account boostsOf accountOf) (status0 # page))), w')"
    using r unfolding statusesLoop_step [OF l t b] ev by simp
  have q: "queue w' = queue w"
    using fr fr2 fr3 by simp
  have lg: "logs w' = logs w @ concat (map (statusWarnings account boostsOf accountOf) (status0 # page))"
    using fr fr2 fr3 by (simp add: statusWarnings_def)
  have pc: "filter isPageCall (calls w') = filter isPageCall (calls w)"
    using fr fr2 fr3 by simp
  show ?case using run q lg pc by blast
qed

lemma rowsAfter_suffix:
  assumes "distinct (map status.ID (done @ rest))" and "[] \<notin> status.ID ` set done"
  shows "rowsAfter (if done = [] then [] else status.ID (last done)) (done @ rest) = rest"
proof (cases "done = []")
  case True
  then show ?thesis by (simp add: rowsAfter_def)
next
  case False
  then obtain ds d where d: "done = ds @ [d]" by (metis rev_exhaust)
  have ne: "status.ID d \<noteq> []" using assms(2) d by force
  have other: "\<forall>x \<in> set ds. status.ID x \<noteq> status.ID d"
    using assms(1) d by (auto simp add: image_iff)
  have "dropWhile (\<lambda>row. status.ID row \<noteq> status.ID d) (ds @ d # rest) = d # rest"
    using other by (simp add: dropWhile_append2)
  then show ?thesis using d ne by (simp add: rowsAfter_def)
qed

lemma chunks_Nil: "chunks n [] = []"
  by (simp add: chunks.simps)

lemma chunks_Cons: "0 < n \<Longrightarrow> xs \<noteq> [] \<Longrightarrow> chunks n xs = take n xs # chunks n (drop n xs)"
  by (subst chunks.simps) simp

lemma concat_chunks: "0 < n \<Longrightarrow> concat (chunks n xs) = xs"
proof (induction n xs rule: chunks.induct)
  case (1 n xs)
  show ?case
  proof (cases "xs = []")
    case True
    then show ?thesis by (simp add: chunks_Nil)
  next
    case False
    then show ?thesis using 1 by (simp add: chunks_Cons)
  qed
qed

lemma length_chunks: "0 < n \<Longrightarrow> length (chunks n xs) = (length xs + n - 1) div n"
proof (induction n xs rule: chunks.induct)
  case (1 n xs)
  show ?case
  proof (cases "xs = []")
    case True
    then show ?thesis using 1(2) by (simp add: chunks_Nil)
  next
    case False
    have ih: "length (chunks n (drop n xs)) = (length (drop n xs) + n - 1) div n"
      using 1 False by simp
    show ?thesis
    proof (cases "length xs \<le> n")
      case True
      have "0 < length xs" using False by simp
      then have "n * 1 \<le> length xs + n - 1" "length xs + n - 1 < n * Suc 1"
        using True 1(2) by arith+
      then have "(length xs + n - 1) div n = 1"
        by (rule div_nat_eqI)
      then show ?thesis using ih True False 1(2) by (simp add: chunks_Cons chunks_Nil)
    next
      case gt: False
      have big: "n < length xs" using gt by simp
      have e: "length xs + n - 1 = (length xs - 1) + n"
        using big by arith
      have "((length xs - 1) + n) div n = Suc ((length xs - 1) div n)"
        using div_add_self2 [of n "length xs - 1"] 1(2) by simp
      then have step: "(length xs + n - 1) div n = Suc ((length xs - 1) div n)"
        using e by simp
      have rest_len: "length (drop n xs) + n - 1 = length xs - 1"
        using big by simp
      show ?thesis
        using ih False 1(2) step rest_len by (simp add: chunks_Cons)
    qed
  qed
qed

lemma chunks_pages: "0 < n \<Longrightarrow> p \<in> set (chunks n xs) \<Longrightarrow> p \<noteq> [] \<and> length p \<le> n"
proof (induction n xs rule: chunks.induct)
  case (1 n xs)
  show ?case
  proof (cases "xs = []")
    case True
    then show ?thesis using 1(3) by (simp add: chunks_Nil)
  next
    case False
    then show ?thesis using 1 by (auto simp add: chunks_Cons)
  qed
qed

lemma statusLoop_empty:
  assumes "fst (GetAccountStatuses db (account.ID account) 50 False False maxID [] False False (store w))
             = ([], e)"
    and "notNoEntries e = None"
  shows "statusLoop (Suc fuel) db account maxID msgs w =
           Some ((None, msgs),
                 snd (invoke (GetAccountStatusesCall (account.ID account) 50 False False maxID [] False False)
                        (GetAccountStatuses db (account.ID account) 50 False False maxID [] False False) w))"
  using assms by (simp add: invoke_eq deleteSelectLimit_def)

lemma statusLoop_page:
  assumes "fst (GetAccountStatuses db (account.ID account) 50 False False maxID [] False False (store w))
             = (statuses, e)"
    and "notNoEntries e = None"
    and "statuses \<noteq> []"
    and "statusesLoop db account statuses msgs
           (snd (invoke (GetAccountStatusesCall (account.ID account) 50 False False maxID [] False False)
                   (GetAccountStatuses db (account.ID account) 50 False False maxID [] False False) w))
         = ((None, msgs1), w2)"
  shows "statusLoop (Suc fuel) db account maxID msgs w =
           statusLoop fuel db account (status.ID (last statuses)) msgs1 w2"
  using assms by (simp add: invoke_eq deleteSelectLimit_def)

lemma statusLoop_pages:
  assumes store: "pagedStore db (account.ID account) rows boostsOf accountOf"
    and dist: "distinct (map status.ID rows)"
    and nonempty: "[] \<notin> status.ID ` set rows"
  shows "rows = done @ rest
     \<Longrightarrow> maxID = (if done = [] then [] else status.ID (last done))
     \<Longrightarrow> length rest + 50 \<le> 50 * fuel
     \<Longrightarrow> \<exists>w'. statusLoop fuel db account maxID msgs w =
                  Some ((None, msgs @ concat (map (statusEvents account boostsOf accountOf) rest)), w') \<and>
               queue w' = queue w \<and>
               logs w' = logs w @ concat (map (statusWarnings account boostsOf accountOf) rest) \<and>
               filter isPageCall (calls w') =
                 filter isPageCall (calls w) @
                 map (\<lambda>maxID. GetAccountStatusesCall (account.ID account) 50 False False maxID [] False False)
                   (maxID # map (\<lambda>page. status.ID (last page)) (chunks 50 rest))"
proof (induction fuel arbitrary: "done" rest maxID msgs w)
  case 0
  then show ?case by simp
next
  case (Suc fuel)
  let ?call = "GetAccountStatusesCall (account.ID account) 50 False False maxID [] False False"
  let ?w1 = "snd (invoke ?call
                (GetAccountStatuses db (account.ID account) 50 False False maxID [] False False) w)"
  have fr1: "queue ?w1 = queue w" "logs ?w1 = logs w"
    "filter isPageCall (calls ?w1) = filter isPageCall (calls w) @ [?call]"
    by (simp_all add: invoke_eq isPageCall_simps)
  have d1: "distinct (map status.ID (done @ rest))"
    using dist Suc.prems(1) by simp
  have d2: "[] \<notin> status.ID ` set done"
    using nonempty Suc.prems(1) by (simp add: image_Un)
  have after: "rowsAfter maxID rows = rest"
    using rowsAfter_suffix [OF d1 d2] Suc.prems(1,2) by simp
  from pagedStore_page [OF store, of 50 maxID "store w"] obtain e where
    page: "fst (GetAccountStatuses db (account.ID account) 50 False False maxID [] False False (store w))
             = (take 50 rest, e)"
    and tol: "notNoEntries e = None"
    unfolding after by auto
  show ?case
  proof (cases "rest = []")
    case True
    have "statusLoop (Suc fuel) db account maxID msgs w = Some ((None, msgs), ?w1)"
      using statusLoop_empty [of db account maxID w e fuel msgs] page tol True by simp
    then show ?thesis
      using True fr1 by (simp add: chunks_Nil)
  next
    case False
    let ?page = "take 50 rest"
    have pne: "?page \<noteq> []" using False by simp
    from statusesLoop_events [OF store, of account ?page msgs ?w1] obtain w2 where
      inner: "statusesLoop db account ?page msgs ?w1 =
                ((None, msgs @ concat (map (statusEvents account boostsOf accountOf) ?page)), w2)"
      and fr2: "queue w2 = queue ?w1"
        "logs w2 = logs ?w1 @ concat (map (statusWarnings account boostsOf accountOf) ?page)"
        "filter isPageCall (calls w2) = filter isPageCall (calls ?w1)"
      by blast
    note step = statusLoop_page [OF page tol pne inner, of fuel]
    have rows': "rows = (done @ ?page) @ drop 50 rest"
      using Suc.prems(1) by simp
    have cur: "status.ID (last ?page) =
                 (if done @ ?page = [] then [] else status.ID (last (done @ ?page)))"
      using pne by simp
    have bound: "length (drop 50 rest) + 50 \<le> 50 * fuel"
    proof -
      have "0 < length rest" using False by simp
      then have "length rest - 50 + 50 \<le> 50 * fuel"
        using Suc.prems(3) by arith
      then show ?thesis by simp
    qed
    from Suc.IH [OF rows' cur bound,
        of "msgs @ concat (map (statusEvents account boostsOf accountOf) ?page)" w2]
    obtain w' where
      fin: "statusLoop fuel db account (status.ID (last ?page))
              (msgs @ concat (map (statusEvents account boostsOf accountOf) ?page)) w2 =
            Some ((None, (msgs @ concat (map (statusEvents account boostsOf accountOf) ?page)) @
                         concat (map (statusEvents account boostsOf accountOf) (drop 50 rest))), w')"
      and fr3: "queue w' = queue w2"
        "logs w' = logs w2 @ concat (map (statusWarnings account boostsOf accountOf) (drop 50 rest))"
        "filter isPageCall (calls w') =
           filter isPageCall (calls w2) @
           map (\<lambda>maxID. GetAccountStatusesCall (account.ID account) 50 False False maxID [] False False)
             (status.ID (last ?page) # map (\<lambda>page. status.ID (last page)) (chunks 50 (drop 50 rest)))"
      by blast
    have cat: "\<And>f. concat (map f ?page) @ concat (map f (drop 50 rest)) = concat (map f rest)"
    proof -
      fix f :: "status \<Rightarrow> 'x list"
      have "concat (map f (?page @ drop 50 rest)) = concat (map f rest)" by simp
      then show "concat (map f ?page) @ concat (map f (drop 50 rest)) = concat (map f rest)"
        by (simp del: append_take_drop_id)
    qed
    have run: "statusLoop (Suc fuel) db account maxID msgs w =
                 Some ((None, msgs @ concat (map (statusEvents account boostsOf accountOf) rest)), w')"
      unfolding step fin using cat [of "statusEvents account boostsOf accountOf"] by simp
    have q: "queue w' = queue w" using fr1 fr2 fr3 by simp
    have lg: "logs w' = logs w @ concat (map (statusWarnings account boostsOf accountOf) rest)"
      using fr1 fr2 fr3 cat [of "statusWarnings account boostsOf accountOf"] by simp
    have pc: "filter isPageCall (calls w') =
                 filter isPageCall (calls w) @
                 map (\<lambda>maxID. GetAccountStatusesCall (account.ID account) 50 False False maxID [] False False)
                   (maxID # map (\<lambda>page. status.ID (last page)) (chunks 50 rest))"
      using fr1 fr2 fr3 False by (simp add: chunks_Cons [of 50 rest])
    show ?thesis using run q lg pc by blast
  qed
qed

lemma deleteAccountStatuses_paged:
  assumes "pagedStore db (account.ID account) rows boostsOf accountOf"
    and "distinct (map status.ID rows)"
    and "[] \<notin> status.ID ` set rows"
    and "length rows + 50 \<le> 50 * fuel"
  shows "\<exists>w'. deleteAccountStatuses fuel db account w = Some (None, w') \<and>
           queue w' = queue w @ [concat (map (statusEvents account boostsOf accountOf) rows)] \<and>
           logs w' = logs w @ concat (map (statusWarnings account boostsOf accountOf) rows) \<and>
           filter isPageCall (calls w') =
             filter isPageCall (calls w) @
             map (\<lambda>maxID. GetAccountStatusesCall (account.ID account) 50 False False maxID [] False False)
               ([] # map (\<lambda>page. status.ID (last page)) (chunks 50 rows))"
proof -
  from statusLoop_pages [OF assms(1-3), of "[]" rows "[]" fuel "[]" w] assms(4)
  obtain w1 where
    run: "statusLoop fuel db account [] [] w =
            Some ((None, concat (map (statusEvents account boostsOf accountOf) rows)), w1)"
    and fr: "queue w1 = queue w"
      "logs w1 = logs w @ concat (map (statusWarnings account boostsOf accountOf) rows)"
      "filter isPageCall (calls w1) =
         filter isPageCall (calls w) @
         map (\<lambda>maxID. GetAccountStatusesCall (account.ID account) 50 False False maxID [] False False)
           ([] # map (\<lambda>page. status.ID (last page)) (chunks 50 rows))"
    by auto
  let ?w' = "EnqueueClientAPI (concat (map (statusEvents account boostsOf accountOf) rows)) w1"
  have "deleteAccountStatuses fuel db account w = Some (None, ?w')"
    using run by (simp add: deleteAccountStatuses_def)
  moreover have "queue ?w' = queue w @ [concat (map (statusEvents account boostsOf accountOf) rows)]"
    "logs ?w' = logs w @ concat (map (statusWarnings account boostsOf accountOf) rows)"
    "filter isPageCall (calls ?w') =
         filter isPageCall (calls w) @
         map (\<lambda>maxID. GetAccountStatusesCall (account.ID account) 50 False False maxID [] False False)
           ([] # map (\<lambda>page. status.ID (last page)) (chunks 50 rows))"
    using fr by (simp_all add: EnqueueClientAPI_def)
  ultimately show ?thesis by blast
qed

lemma statusEvents_counts:
  "length (filter isNote (statusEvents account boostsOf accountOf status0)) = 1 \<and>
   length (filter isAnnounce (statusEvents account boostsOf accountOf status0)) =
     length (filter (\<lambda>boost. resolveBooster accountOf boost \<noteq> None)
               (boostsOf (status0\<lparr>status.Account := Some account\<rparr>)))"
  by (simp add: statusEvents_def Let_def isNote_def isAnnounce_def noteEvent_def announceEvent_def
        List.map_filter_def o_def)

lemma batch_counts:
  "length (filter isNote (concat (map (statusEvents account boostsOf accountOf) rows))) = length rows \<and>
   length (filter isAnnounce (concat (map (statusEvents account boostsOf accountOf) rows))) =
     sum_list (map (\<lambda>status0.
        length (filter (\<lambda>boost. resolveBooster accountOf boost \<noteq> None)
                  (boostsOf (status0\<lparr>status.Account := Some account\<rparr>)))) rows)"
proof (induction rows)
  case Nil
  show ?case by simp
next
  case (Cons r rows)
  show ?case
    using Cons.IH statusEvents_counts [of account boostsOf accountOf r] by simp
qed

lemma pagedStore_listDB: "pagedStore (listDB rows boostsOf accountOf) accountID rows boostsOf accountOf"
  by (simp add: pagedStore_def listDB_def quietDB_def notNoEntries_def split: option.splits)

lemma statusRow_sel:
  "status.ID (statusRow n) = replicate (Suc n) CHR ''s''"
  "status.ID ((statusRow n)\<lparr>status.Account := a\<rparr>) = replicate (Suc n) CHR ''s''"
  by (simp_all add: statusRow_def)

lemma rows120_facts:
  "length rows120 = 120"
  "distinct (map status.ID rows120)"
  "[] \<notin> status.ID ` set rows120"
proof -
  show "length rows120 = 120" by (simp add: rows120_def)
  have inj: "inj_on (\<lambda>n. replicate (Suc n) CHR ''s'') (set [0..<120])"
  proof (rule inj_onI)
    fix a b :: nat
    assume "replicate (Suc a) CHR ''s'' = replicate (Suc b) CHR ''s''"
    then have "length (replicate (Suc a) CHR ''s'') = length (replicate (Suc b) CHR ''s'')"
      by (rule arg_cong)
    then show "a = b" by simp
  qed
  have "map status.ID rows120 = map (\<lambda>n. replicate (Suc n) CHR ''s'') [0..<120]"
    by (simp add: rows120_def statusRow_def)
  then show "distinct (map status.ID rows120)"
    using inj by (simp add: distinct_map)
  show "[] \<notin> status.ID ` set rows120"
    by (auto simp add: rows120_def statusRow_def)
qed

lemma rows120_split:
  "rows120 = statusRow 0 # statusRow (Suc 0) # map statusRow [Suc (Suc 0)..<120]"
proof -
  have a: "[0..<120] = 0 # [Suc 0..<120]" by (rule upt_rec [of 0 120, simplified])
  have b: "[Suc 0..<120] = Suc 0 # [Suc (Suc 0)..<120]" by (subst upt_rec) simp
  show ?thesis unfolding rows120_def a b by simp
qed

lemma statusRow_ID_eq:
  "status.ID (statusRow n) = ''s'' \<longleftrightarrow> n = 0"
  "status.ID (statusRow n) = ''ss'' \<longleftrightarrow> n = Suc 0"
proof -
  have len: "length (status.ID (statusRow n)) = Suc n" by (simp add: statusRow_def)
  show "status.ID (statusRow n) = ''s'' \<longleftrightarrow> n = 0"
  proof
    assume "status.ID (statusRow n) = ''s''"
    then have "length (status.ID (statusRow n)) = length ''s''" by (rule arg_cong)
    then show "n = 0" using len by simp
  next
    assume "n = 0"
    then show "status.ID (statusRow n) = ''s''" by (simp add: statusRow_def)
  qed
  show "status.ID (statusRow n) = ''ss'' \<longleftrightarrow> n = Suc 0"
  proof
    assume "status.ID (statusRow n) = ''ss''"
    then have "length (status.ID (statusRow n)) = length ''ss''" by (rule arg_cong)
    then show "n = Suc 0" using len by simp
  next
    assume "n = Suc 0"
    then show "status.ID (statusRow n) = ''ss''" by (simp add: statusRow_def)
  qed
qed

lemma exampleBoostsOf_rows:
  "exampleBoostsOf ((statusRow 0)\<lparr>status.Account := a\<rparr>) =
     [\<lparr>status.ID = ''b1'', status.AccountID = ''02'',
       status.Account = Some (exampleAccount ''02'' ''remote.example'')\<rparr>,
      \<lparr>status.ID = ''b2'', status.AccountID = ''gone'', status.Account = None\<rparr>]"
  "exampleBoostsOf ((statusRow (Suc 0))\<lparr>status.Account := a\<rparr>) =
     [\<lparr>status.ID = ''b3'', status.AccountID = ''03'', status.Account = None\<rparr>]"
  "2 \<le> n \<Longrightarrow> exampleBoostsOf ((statusRow n)\<lparr>status.Account := a\<rparr>) = []"
proof -
  have sel: "\<And>m. status.ID ((statusRow m)\<lparr>status.Account := a\<rparr>) = status.ID (statusRow m)"
    by simp
  show "exampleBoostsOf ((statusRow 0)\<lparr>status.Account := a\<rparr>) =
     [\<lparr>status.ID = ''b1'', status.AccountID = ''02'',
       status.Account = Some (exampleAccount ''02'' ''remote.example'')\<rparr>,
      \<lparr>status.ID = ''b2'', status.AccountID = ''gone'', status.Account = None\<rparr>]"
    unfolding exampleBoostsOf_def sel statusRow_ID_eq by simp
  show "exampleBoostsOf ((statusRow (Suc 0))\<lparr>status.Account := a\<rparr>) =
     [\<lparr>status.ID = ''b3'', status.AccountID = ''03'', status.Account = None\<rparr>]"
    unfolding exampleBoostsOf_def sel statusRow_ID_eq by simp
  show "2 \<le> n \<Longrightarrow> exampleBoostsOf ((statusRow n)\<lparr>status.Account := a\<rparr>) = []"
    unfolding exampleBoostsOf_def sel statusRow_ID_eq by simp
qed

lemma sum_rows120:
  assumes "\<And>n. 2 \<le> n \<Longrightarrow> g (statusRow n) = (0::nat)"
  shows "sum_list (map g rows120) = g (statusRow 0) + g (statusRow (Suc 0))"
proof -
  have "sum_list (map g (map statusRow [Suc (Suc 0)..<120])) = 0"
    using assms by (simp add: sum_list_eq_0_iff)
  then show ?thesis by (simp add: rows120_split)
qed

lemma concat_rows120:
  assumes "\<And>n. 2 \<le> n \<Longrightarrow> g (statusRow n) = []"
  shows "concat (map g rows120) = g (statusRow 0) @ g (statusRow (Suc 0))"
proof -
  have "concat (map g (map statusRow [Suc (Suc 0)..<120])) = []"
    using assms by simp
  then show ?thesis by (simp add: rows120_split)
qed

lemma example_announces:
  "sum_list (map (\<lambda>status0.
      length (filter (\<lambda>boost. resolveBooster exampleAccountOf boost \<noteq> None)
                (exampleBoostsOf (status0\<lparr>status.Account := Some (exampleAccount ''01'' [])\<rparr>)))) rows120)
   = 2"
  by (subst sum_rows120)
     (simp_all add: exampleBoostsOf_rows resolveBooster_def exampleAccountOf_def)

lemma example_reblogs:
  "sum_list (map (\<lambda>status0.
      length (fst (fst (GetStatusReblogs (listDB rows120 exampleBoostsOf exampleAccountOf)
                          (status0\<lparr>status.Account := Some (exampleAccount ''01'' [])\<rparr>) 0)))) rows120)
   = 3"
  by (subst sum_rows120) (simp_all add: exampleBoostsOf_rows listDB_def quietDB_def)

lemma example_warnings:
  "concat (map (statusWarnings (exampleAccount ''01'' []) exampleBoostsOf exampleAccountOf) rows120) =
     [Log WARN ''no account found with id %s for boost %s'' [''gone'', ''b2'']]"
  by (subst concat_rows120)
     (simp_all add: statusWarnings_def boostWarnings_def exampleBoostsOf_rows resolveBooster_def
        exampleAccountOf_def)

text \<open>
  Claim C3, as stated, fails.  The account \<open>01\<close> has 120 statuses and the store lists
  three reblogs of them.  The step returns nil and its one batch holds 120 note events but
  only two announce events: the reblog \<open>b2\<close> has no account attached and the store has no
  account with its account id, so the step skips it with a warning.
\<close>

theorem skipped_boost_counterexample:
  "length rows120 = 120 \<and>
   sum_list (map (\<lambda>status0.
      length (fst (fst (GetStatusReblogs (listDB rows120 exampleBoostsOf exampleAccountOf)
                          (status0\<lparr>status.Account := Some (exampleAccount ''01'' [])\<rparr>) 0)))) rows120)
     = 3 \<and>
   deleteAccountStatuses 4 (listDB rows120 exampleBoostsOf exampleAccountOf) (exampleAccount ''01'' [])
       (emptyWorld 0) \<noteq> None \<and>
   fst (the (deleteAccountStatuses 4 (listDB rows120 exampleBoostsOf exampleAccountOf)
               (exampleAccount ''01'' []) (emptyWorld 0))) = None \<and>
   length (filter isNote (concat (queue (snd (the
     (deleteAccountStatuses 4 (listDB rows120 exampleBoostsOf exampleAccountOf)
        (exampleAccount ''01'' []) (emptyWorld 0))))))) = 120 \<and>
   length (filter isAnnounce (concat (queue (snd (the
     (deleteAccountStatuses 4 (listDB rows120 exampleBoostsOf exampleAccountOf)
        (exampleAccount ''01'' []) (emptyWorld 0))))))) = 2 \<and>
   logs (snd (the (deleteAccountStatuses 4 (listDB rows120 exampleBoostsOf exampleAccountOf)
                     (exampleAccount ''01'' []) (emptyWorld 0)))) =
     [Log WARN ''no account found with id %s for boost %s'' [''gone'', ''b2'']]"
proof -
  let ?db = "listDB rows120 exampleBoostsOf exampleAccountOf"
  let ?a = "exampleAccount ''01'' []"
  have fuel: "length rows120 + 50 \<le> 50 * 4" by (simp add: rows120_facts)
  from deleteAccountStatuses_paged
         [where account = ?a and w = "emptyWorld (0::nat)",
          OF pagedStore_listDB [of rows120 exampleBoostsOf exampleAccountOf]
             rows120_facts(2) rows120_facts(3) fuel]
  obtain w' where all:
    "deleteAccountStatuses 4 ?db ?a (emptyWorld (0::nat)) = Some (None, w') \<and>
     queue w' = queue (emptyWorld (0::nat)) @
       [concat (map (statusEvents ?a exampleBoostsOf exampleAccountOf) rows120)] \<and>
     logs w' = logs (emptyWorld (0::nat)) @
       concat (map (statusWarnings ?a exampleBoostsOf exampleAccountOf) rows120) \<and>
     filter isPageCall (calls w') =
       filter isPageCall (calls (emptyWorld (0::nat))) @
       map (\<lambda>maxID. GetAccountStatusesCall (account.ID ?a) 50 False False maxID [] False False)
         ([] # map (\<lambda>page. status.ID (last page)) (chunks 50 rows120))"
    ..
  note run = all [THEN conjunct1]
  note q = all [THEN conjunct2, THEN conjunct1]
  note l = all [THEN conjunct2, THEN conjunct2, THEN conjunct1]
  have q': "concat (queue w') = concat (map (statusEvents ?a exampleBoostsOf exampleAccountOf) rows120)"
    using q by (simp add: emptyWorld_def)
  have noteCount: "length (filter isNote (concat (queue w'))) = 120"
    unfolding q' using batch_counts [of ?a exampleBoostsOf exampleAccountOf rows120]
    by (simp add: rows120_facts)
  have announceCount: "length (filter isAnnounce (concat (queue w'))) = 2"
    unfolding q' using batch_counts [of ?a exampleBoostsOf exampleAccountOf rows120] example_announces
    by simp
  have lg: "logs w' = [Log WARN ''no account found with id %s for boost %s'' [''gone'', ''b2'']]"
    using l example_warnings by (simp add: emptyWorld_def)
  show ?thesis
    using run noteCount announceCount lg example_reblogs rows120_facts(1) by simp
qed

text \<open>
  Claim C3, amended.  Take a store that pages the statuses of the account by cursor and
  limit, with ids that are distinct and not empty, and let the bound on the pages allow
  one read more than the pages of 50 that the statuses fill.  Then the step returns nil.
  It asks for pages with limit 50, first with the empty cursor and then with the id of
  the last row of the page before, and stops at the first empty page: the pages are the
  statuses cut into pages of 50, none empty and none longer than 50, so 120 statuses make
  exactly 3 pages.  After the scan it hands the workers one batch, which holds for each
  status, in order, the note event (\<open>ObjectNote\<close>/\<open>ActivityDelete\<close>, origin and target the
  deleted account) followed by one announce event (\<open>ActivityAnnounce\<close>/\<open>ActivityUndo\<close>,
  origin the booster, target the deleted account) for each listed reblog whose account is
  attached to it or found in the store; a reblog whose account does not exist is skipped
  with a warning in the log.  So the batch holds as many note events as there are
  statuses.
\<close>

theorem deleteAccountStatuses_pages_and_events:
  assumes "pagedStore db (account.ID account) rows boostsOf accountOf"
    and "distinct (map status.ID rows)"
    and "[] \<notin> status.ID ` set rows"
    and "length rows + 50 \<le> 50 * fuel"
  shows "(\<exists>w'. deleteAccountStatuses fuel db account w = Some (None, w') \<and>
           queue w' = queue w @ [concat (map (statusEvents account boostsOf accountOf) rows)] \<and>
           logs w' = logs w @ concat (map (statusWarnings account boostsOf accountOf) rows) \<and>
           filter isPageCall (calls w') =
             filter isPageCall (calls w) @
             map (\<lambda>maxID. GetAccountStatusesCall (account.ID account) 50 False False maxID [] False False)
               ([] # map (\<lambda>page. status.ID (last page)) (chunks 50 rows))) \<and>
         concat (chunks 50 rows) = rows \<and>
         (\<forall>page \<in> set (chunks 50 rows). page \<noteq> [] \<and> length page \<le> 50) \<and>
         length (chunks 50 rows) = (length rows + 49) div 50 \<and>
         (length rows = 120 \<longrightarrow> length (chunks 50 rows) = 3) \<and>
         length (filter isNote (concat (map (statusEvents account boostsOf accountOf) rows))) = length rows \<and>
         length (filter isAnnounce (concat (map (statusEvents account boostsOf accountOf) rows))) =
           sum_list (map (\<lambda>status0.
              length (filter (\<lambda>boost. resolveBooster accountOf boost \<noteq> None)
                        (boostsOf (status0\<lparr>status.Account := Some account\<rparr>)))) rows)"
proof -
  note run = deleteAccountStatuses_paged [OF assms, of w]
  have c1: "concat (chunks 50 rows) = rows" by (simp add: concat_chunks)
  have c2: "\<forall>page \<in> set (chunks 50 rows). page \<noteq> [] \<and> length page \<le> 50"
    using chunks_pages [of 50 _ rows] by simp
  have c3: "length (chunks 50 rows) = (length rows + 49) div 50"
    using length_chunks [of 50 rows] by simp
  have c4: "length rows = 120 \<longrightarrow> length (chunks 50 rows) = 3"
    using c3 by simp
  show ?thesis
    using run c1 c2 c3 c4 batch_counts [of account boostsOf accountOf rows] by blast
qed

theorem deleteAccountStatuses_pages_and_events_witness:
  "pagedStore (listDB rows120 exampleBoostsOf exampleAccountOf) (account.ID (exampleAccount ''01'' []))
     rows120 exampleBoostsOf exampleAccountOf \<and>
   distinct (map status.ID rows120) \<and>
   [] \<notin> status.ID ` set rows120 \<and>
   length rows120 + 50 \<le> 50 * (4::nat) \<and>
   length rows120 = 120 \<and>
   length (chunks 50 rows120) = 3 \<and>
   (\<exists>w'. deleteAccountStatuses 4 (listDB rows120 exampleBoostsOf exampleAccountOf)
            (exampleAccount ''01'' []) (emptyWorld 0) = Some (None, w') \<and>
         queue w' =
           [concat (map (statusEvents (exampleAccount ''01'' []) exampleBoostsOf exampleAccountOf) rows120)])"
proof -
  have fuel: "length rows120 + 50 \<le> 50 * (4::nat)" by (simp add: rows120_facts)
  note t = deleteAccountStatuses_pages_and_events
             [where account = "exampleAccount ''01'' []" and w = "emptyWorld 0",
              OF pagedStore_listDB [of rows120 exampleBoostsOf exampleAccountOf]
             rows120_facts(2) rows120_facts(3) fuel]
  have pages: "length (chunks 50 rows120) = 3"
    using t rows120_facts(1) by blast
  have run: "\<exists>w'. deleteAccountStatuses 4 (listDB rows120 exampleBoostsOf exampleAccountOf)
            (exampleAccount ''01'' []) (emptyWorld 0) = Some (None, w') \<and>
         queue w' =
           [concat (map (statusEvents (exampleAccount ''01'' []) exampleBoostsOf exampleAccountOf) rows120)]"
    using t by (auto simp add: emptyWorld_def)
  show ?thesis
    using pagedStore_listDB rows120_facts fuel pages run by blast
qed

end
